theory Spec2Isabelle
  imports Main
begin

section \<open>Data model\<close>

text \<open>
  The program is \<^verbatim>\<open>src/server/gfs-update.js\<close>. Instants are JavaScript time values
  (milliseconds since the epoch) and are integers here. The modules \<^verbatim>\<open>./gfs\<close>,
  \<^verbatim>\<open>./tool\<close> and \<^verbatim>\<open>./aws\<close> are not part of the source at hand; what the program
  needs of them is either a field of the environment \<open>env\<close> or a definition marked
  as modelled from the specification.
\<close>

text \<open>A Cycle is identified by its timestamp; \<open>date\<close> is \<^verbatim>\<open>cycle.date().getTime()\<close>.\<close>

record Cycle =
  date :: int

text \<open>\<^verbatim>\<open>gfs.product(type, cycle, forecastHour)\<close>.\<close>

record Product =
  ptype :: string
  cycle :: Cycle
  forecastHour :: int

text \<open>One entry of \<^verbatim>\<open>LAYER_RECIPES\<close>.\<close>

record Recipe =
  name :: string
  filter_args :: string
  description :: string

text \<open>\<^verbatim>\<open>gfs.layer(recipe, product, isCurrent)\<close>; an omitted flag is falsy.\<close>

record Layer =
  recipe :: Recipe
  product :: Product
  isCurrent :: bool

text \<open>
  A record of the decoder's output as the program reads it back: \<^verbatim>\<open>header.refTime\<close>,
  \<^verbatim>\<open>header.forecastTime\<close>, and the \<^verbatim>\<open>meta.date\<close> that \<^verbatim>\<open>processLayer\<close> attaches.
\<close>

record Header =
  refTime :: string
  forecastTime :: int

record Rec =
  header :: Header
  meta :: "string option"

text \<open>
  A local file is a raw model file, a structured record file, or a file that a write stream
  has just created and not yet filled.
\<close>

datatype fcontent = Grib | Records "Rec list" | Empty

text \<open>
  An object of the remote store with its metadata map and cache-control header, and what
  a metadata fetch returns: \<^verbatim>\<open>existing.Metadata\<close> is undefined (\<open>None\<close>) when the
  key has no object.
\<close>

record s3object =
  Metadata :: "(string \<times> string) list"
  CacheControl :: string
  Body :: fcontent

record s3head =
  hMetadata :: "(string \<times> string) list option"

datatype s3req = Head string | Put string "(string \<times> string) list" string

text \<open>What \<^verbatim>\<open>tool.download\<close> resolves with.\<close>

record dlresult =
  statusCode :: int
  received :: int
  duration :: int

datatype error =
    TransportError string
  | DecoderFailed int
  | TypeError
  | SyntaxError
  | StreamError string
  | UploadError string
  | InvalidDate
  | NoSuchFile string

text \<open>The promise returned by \<^verbatim>\<open>tool.download\<close> settles one way or the other.\<close>

datatype download_outcome = DResolved dlresult | DRejected string

text \<open>
  One run of the external decoder: the temporary output path chosen by
  \<^verbatim>\<open>createTemp\<close>, the exit code, and the records found in the output file. Temporary
  files live in the system's temporary directory and are kept out of \<open>files\<close>.
\<close>

record decoder_run =
  tempPath :: string
  returnCode :: int
  outputRecords :: "Rec list"

text \<open>
  The values a stage's promise is fulfilled with: \<^verbatim>\<open>null\<close>, \<^verbatim>\<open>true\<close>, or the
  result object that the object store's upload resolves with.
\<close>

datatype s3result = PutResult string

datatype jsvalue = VNull | VTrue | VResult s3result

text \<open>The calls of \<^verbatim>\<open>log.info\<close> and \<^verbatim>\<open>log.error\<close>, one constructor per message.\<close>

datatype logmsg =
    AlreadyExists string
  | NoServers
  | Get string
  | DownloadFailed dlresult
  | DownloadComplete string
  | ProductNotFound string
  | NewerLayerExists string
  | ReplacingObsolete string
  | Grib2jsonFailed int string
  | Processing string
  | NoLayerData string
  | SuccessfullyBuilt string
  | LayerFileNotFound string
  | Pushed string "s3result option"
  | CycleStart Cycle
  | BatchComplete
  | NoRecentLayers

text \<open>
  What the program takes from outside: its command line, the constants and the path
  algebra of \<^verbatim>\<open>./gfs\<close> and \<^verbatim>\<open>./aws\<close>, and JavaScript's \<^verbatim>\<open>Date\<close>
  (\<open>newDate s\<close> is the time value of \<^verbatim>\<open>new Date(s)\<close>, \<open>None\<close> for an invalid date).
\<close>

record env =
  GRIB_HOME :: string
  LAYER_HOME :: string
  forecasts :: "int list"
  NOMADS :: string
  NCEP :: string
  S3_LAYER_HOME :: string
  S3_BUCKET :: string
  toGrid :: "int \<Rightarrow> int"
  productRel :: "Product \<Rightarrow> string"
  layerRel :: "Layer \<Rightarrow> string"
  productPrevious :: "Product \<Rightarrow> Product"
  cacheControlFor :: "Layer \<Rightarrow> string"
  newDate :: "string \<Rightarrow> int option"
  toISOString :: "int \<Rightarrow> string"

text \<open>
  The mutable world: the local file system (directories are not tracked, so
  \<^verbatim>\<open>mkdirp\<close> has no effect here), the global server list, the GET requests issued, the
  decoder invocations (their argument strings), the remote store and the requests made to
  it, and the log.
\<close>

record state =
  files :: "string \<rightharpoonup> fcontent"
  servers :: "string list"
  requests :: "string list"
  decoded :: "string list"
  remote :: "string \<rightharpoonup> s3object"
  s3log :: "s3req list"
  logged :: "logmsg list"

definition existsSync :: "state \<Rightarrow> string \<Rightarrow> bool" where
  "existsSync s p = (files s p \<noteq> None)"

definition log_info :: "logmsg \<Rightarrow> state \<Rightarrow> state" where
  "log_info m s = s\<lparr>logged := logged s @ [m]\<rparr>"

section \<open>The modules not at hand\<close>

text \<open>
  Modelled from the spec: \<^verbatim>\<open>product.path(root)\<close> and \<^verbatim>\<open>layer.path(root)\<close> of
  \<^verbatim>\<open>./gfs\<close> are missing. A Product or Layer derives a deterministic relative path,
  a pure function of its identity, placed under the given root.
\<close>

definition product_path :: "env \<Rightarrow> string \<Rightarrow> Product \<Rightarrow> string" where
  "product_path e root p = root @ productRel e p"

definition layer_path :: "env \<Rightarrow> string \<Rightarrow> Layer \<Rightarrow> string" where
  "layer_path e root l = root @ layerRel e l"

text \<open>
  Modelled from the spec: \<^verbatim>\<open>gfs.cycle\<close>, \<^verbatim>\<open>cycle.next()\<close> and
  \<^verbatim>\<open>cycle.previous()\<close> are missing. A Cycle is a timestamp on a fixed period grid,
  every 6 hours; \<open>next\<close> and \<open>previous\<close> move to the adjacent grid point. How an
  arbitrary instant is brought onto the grid is the environment's \<open>toGrid\<close>.
\<close>

definition CYCLE_PERIOD :: int where
  "CYCLE_PERIOD = 6 * 60 * 60 * 1000"

definition gfs_cycle :: "env \<Rightarrow> int \<Rightarrow> Cycle" where
  "gfs_cycle e t = \<lparr>date = toGrid e t\<rparr>"

definition cycle_next :: "Cycle \<Rightarrow> Cycle" where
  "cycle_next c = \<lparr>date = date c + CYCLE_PERIOD\<rparr>"

definition cycle_previous :: "Cycle \<Rightarrow> Cycle" where
  "cycle_previous c = \<lparr>date = date c - CYCLE_PERIOD\<rparr>"

text \<open>
  Modelled from the spec: \<^verbatim>\<open>gfs.product\<close>, \<^verbatim>\<open>product.date()\<close>, \<^verbatim>\<open>gfs.layer\<close>
  and \<^verbatim>\<open>layer.previous()\<close> are missing. A Product is identified by type, Cycle and
  forecast offset in hours, and its validity time is the Cycle time plus the offset. A
  Layer is identified by Recipe, Product and the is-current flag; its \<open>previous\<close> steps
  the underlying Product backward (by the environment's \<open>productPrevious\<close>).
\<close>

definition gfs_product :: "string \<Rightarrow> Cycle \<Rightarrow> int \<Rightarrow> Product" where
  "gfs_product t c h = \<lparr>ptype = t, cycle = c, forecastHour = h\<rparr>"

definition product_date :: "Product \<Rightarrow> int" where
  "product_date p = date (cycle p) + forecastHour p * (60 * 60 * 1000)"

definition gfs_layer :: "Recipe \<Rightarrow> Product \<Rightarrow> bool \<Rightarrow> Layer" where
  "gfs_layer r p c = \<lparr>recipe = r, product = p, isCurrent = c\<rparr>"

definition layer_previous :: "env \<Rightarrow> Layer \<Rightarrow> Layer" where
  "layer_previous e l = l\<lparr>product := productPrevious e (product l)\<rparr>"

text \<open>
  Modelled from the spec: \<^verbatim>\<open>tool.readJSONSync\<close> is missing. It reads a structured
  record file back as the sequence of records it holds. The program puts \<^verbatim>\<open>./\<close> in
  front of the path it has just tested. In front of a relative path that names the same
  file. In front of an absolute path it names a file under the working directory, which
  is another file: \<open>files\<close> has it under the prefixed name.
\<close>

definition isAbsolute :: "string \<Rightarrow> bool" where
  "isAbsolute p = (take 1 p = ''/'')"

definition resolve_path :: "string \<Rightarrow> string" where
  "resolve_path p = (if take 2 p = ''./'' \<and> \<not> isAbsolute (drop 2 p) then drop 2 p else p)"

definition readJSONSync :: "state \<Rightarrow> string \<Rightarrow> error + Rec list" where
  "readJSONSync s p =
     (case files s (resolve_path p) of
        None \<Rightarrow> Inl (NoSuchFile p)
      | Some Grib \<Rightarrow> Inl SyntaxError
      | Some Empty \<Rightarrow> Inl SyntaxError
      | Some (Records rs) \<Rightarrow> Inr rs)"

text \<open>
  Modelled from the spec: \<^verbatim>\<open>aws.uploadFile\<close> is missing. It performs a conditional
  upload: it fetches the existing remote metadata (if any) and uploads, with body, key,
  metadata map and cache-control header, only if the predicate given by the caller holds
  of what it fetched. It resolves with the upload result, or with nothing when the upload
  is skipped. \<open>put\<close> is the store's answer to the upload, should one be made.
\<close>

definition headObject :: "state \<Rightarrow> string \<Rightarrow> s3head" where
  "headObject s key =
     (case remote s key of
        None \<Rightarrow> \<lparr>hMetadata = None\<rparr>
      | Some obj \<Rightarrow> \<lparr>hMetadata = Some (Metadata obj)\<rparr>)"

definition uploadFile ::
  "string \<Rightarrow> string \<Rightarrow> string \<Rightarrow> (string \<times> string) list \<Rightarrow> (s3head \<Rightarrow> bool) \<Rightarrow> string
     \<Rightarrow> error + s3result \<Rightarrow> state \<Rightarrow> (error + s3result option) \<times> state" where
  "uploadFile path bucket key metadata predicate cacheControl put s =
     (let existing = headObject s key;
          s1 = s\<lparr>s3log := s3log s @ [Head key]\<rparr>
      in if predicate existing then
           (case files s1 path of
              None \<Rightarrow> (Inl (NoSuchFile path), s1)
            | Some body \<Rightarrow>
                (let s2 = s1\<lparr>s3log := s3log s1 @ [Put key metadata cacheControl]\<rparr> in
                 case put of
                   Inl err \<Rightarrow> (Inl err, s2)
                 | Inr res \<Rightarrow>
                     (Inr (Some res),
                      s2\<lparr>remote := (remote s2)(key \<mapsto>
                            \<lparr>Metadata = metadata, CacheControl = cacheControl,
                             Body = body\<rparr>)\<rparr>)))
         else (Inr None, s1))"

section \<open>Constants of the program\<close>

definition PRODUCT_TYPES :: "string list" where
  "PRODUCT_TYPES = [''1.0'']"

definition GRIB2JSON_FLAGS :: string where
  "GRIB2JSON_FLAGS = ''-c -d -n''"

definition wi10 :: Recipe where
  "wi10 = \<lparr>name = ''wind-isobaric-10hPa'', filter_args = ''--fc 2 --fp wind --fs 100 --fv 1000'',
           description = ''Wind Velocity @ 10 hPa''\<rparr>"

definition wi70 :: Recipe where
  "wi70 = \<lparr>name = ''wind-isobaric-70hPa'', filter_args = ''--fc 2 --fp wind --fs 100 --fv 7000'',
           description = ''Wind Velocity @ 70 hPa''\<rparr>"

definition wi250 :: Recipe where
  "wi250 = \<lparr>name = ''wind-isobaric-250hPa'', filter_args = ''--fc 2 --fp wind --fs 100 --fv 25000'',
            description = ''Wind Velocity @ 250 hPa''\<rparr>"

definition wi500 :: Recipe where
  "wi500 = \<lparr>name = ''wind-isobaric-500hPa'', filter_args = ''--fc 2 --fp wind --fs 100 --fv 50000'',
            description = ''Wind Velocity @ 500 hPa''\<rparr>"

definition wi700 :: Recipe where
  "wi700 = \<lparr>name = ''wind-isobaric-700hPa'', filter_args = ''--fc 2 --fp wind --fs 100 --fv 70000'',
            description = ''Wind Velocity @ 700 hPa''\<rparr>"

definition wi850 :: Recipe where
  "wi850 = \<lparr>name = ''wind-isobaric-850hPa'', filter_args = ''--fc 2 --fp wind --fs 100 --fv 85000'',
            description = ''Wind Velocity @ 850 hPa''\<rparr>"

definition wi1000 :: Recipe where
  "wi1000 = \<lparr>name = ''wind-isobaric-1000hPa'',
             filter_args = ''--fc 2 --fp wind --fs 100 --fv 100000'',
             description = ''Wind Velocity @ 1000 hPa''\<rparr>"

text \<open>The values of \<^verbatim>\<open>LAYER_RECIPES\<close> in the order of \<^verbatim>\<open>Object.keys\<close>.\<close>

definition LAYER_RECIPES :: "Recipe list" where
  "LAYER_RECIPES = [wi10, wi70, wi250, wi500, wi700, wi850, wi1000]"

section \<open>Server pool\<close>

definition nextServer :: "env \<Rightarrow> state \<Rightarrow> string \<times> state" where
  "nextServer e s =
     (if length (servers s) = 0 then (NOMADS e, log_info NoServers s)
      else (last (servers s), s\<lparr>servers := butlast (servers s)\<rparr>))"

definition releaseServer :: "string \<Rightarrow> state \<Rightarrow> state" where
  "releaseServer server s = s\<lparr>servers := servers s @ [server]\<rparr>"

section \<open>Fetch\<close>

text \<open>
  The callbacks given to \<^verbatim>\<open>tool.download(remotePath, tempStream).then\<close>: a handler for
  fulfilment, \<^verbatim>\<open>null\<close> for rejection, so a rejection passes through as the rejection
  of the promise that \<^verbatim>\<open>download\<close> returns. The state is the one the callback finds.
  The throughput figure of the last log line is floating point and left out of the
  message.
\<close>

definition download_then ::
  "env \<Rightarrow> Product \<Rightarrow> string \<Rightarrow> string \<Rightarrow> string \<Rightarrow> download_outcome \<Rightarrow> state
     \<Rightarrow> (error + Product) \<times> state" where
  "download_then e p server remotePath localPath out s =
     (case out of
        DRejected err \<Rightarrow> (Inl (TransportError err), s)
      | DResolved result \<Rightarrow>
          (let s1 = releaseServer server s in
           if statusCode result \<ge> 300 then (Inr p, log_info (DownloadFailed result) s1)
           else (Inr p,
                 log_info (DownloadComplete remotePath)
                   (s1\<lparr>files := (files s1)(localPath \<mapsto> Grib)\<rparr>))))"

text \<open>
  \<^verbatim>\<open>download(product)\<close>, with the outcome of the one transfer it may start. The
  politeness delay is real time and has no counterpart here.
\<close>

definition download ::
  "env \<Rightarrow> Product \<Rightarrow> download_outcome \<Rightarrow> state \<Rightarrow> (error + Product) \<times> state" where
  "download e p out s =
     (let localPath = product_path e (GRIB_HOME e) p in
      if existsSync s localPath then (Inr p, log_info (AlreadyExists localPath) s)
      else
        (let (server, s1) = nextServer e s;
             remotePath = product_path e (''http://'' @ server) p;
             s2 = log_info (Get remotePath) s1;
             s3 = s2\<lparr>requests := requests s2 @ [remotePath]\<rparr>
         in download_then e p server remotePath localPath out s3))"

section \<open>Extract\<close>

text \<open>
  \<^verbatim>\<open>processLayer(layer, path)\<close> on the records read from the decoder's output file at
  \<open>path\<close>: no records give \<^verbatim>\<open>null\<close>, otherwise every record gets its
  \<^verbatim>\<open>meta.date\<close>.
\<close>

definition processLayer :: "env \<Rightarrow> Layer \<Rightarrow> Rec list \<Rightarrow> Rec list option" where
  "processLayer e layer data =
     (if length data = 0 then None
      else Some (map (\<lambda>record. record\<lparr>meta := Some (toISOString e (product_date (product layer)))\<rparr>)
                   data))"

text \<open>JavaScript's comparison of two dates; an invalid date compares false.\<close>

definition date_ge :: "int option \<Rightarrow> int \<Rightarrow> bool" where
  "date_ge a b = (case a of None \<Rightarrow> False | Some t \<Rightarrow> t \<ge> b)"

definition date_lt :: "int option \<Rightarrow> int \<Rightarrow> bool" where
  "date_lt a b = (case a of None \<Rightarrow> False | Some t \<Rightarrow> t < b)"

text \<open>The callback given to \<^verbatim>\<open>tool.grib2json(args, ...).then\<close>.\<close>

definition extractLayer_then ::
  "env \<Rightarrow> Layer \<Rightarrow> string \<Rightarrow> string \<Rightarrow> decoder_run \<Rightarrow> state \<Rightarrow> (error + Layer option) \<times> state" where
  "extractLayer_then e layer productPath layerPath run s =
     (if returnCode run \<noteq> 0 then
        (Inl (DecoderFailed (returnCode run)),
         log_info (Grib2jsonFailed (returnCode run) productPath) s)
      else
        (let s1 = log_info (Processing layerPath) s in
         case processLayer e layer (outputRecords run) of
           None \<Rightarrow> (Inr None, log_info (NoLayerData layerPath) s1)
         | Some data \<Rightarrow>
             (Inr (Some layer),
              log_info (SuccessfullyBuilt layerPath)
                (s1\<lparr>files := (files s1)(layerPath \<mapsto> Records data)\<rparr>))))"

text \<open>The decoder is started with the formatted argument string, then the callback runs.\<close>

definition grib2json ::
  "env \<Rightarrow> Layer \<Rightarrow> string \<Rightarrow> string \<Rightarrow> decoder_run \<Rightarrow> state \<Rightarrow> (error + Layer option) \<times> state" where
  "grib2json e layer productPath layerPath run s =
     (let args = filter_args (recipe layer) @ '' '' @ GRIB2JSON_FLAGS @ '' -o '' @ tempPath run
                   @ '' '' @ productPath
      in extractLayer_then e layer productPath layerPath run (s\<lparr>decoded := decoded s @ [args]\<rparr>))"

definition extractLayer ::
  "env \<Rightarrow> Layer \<Rightarrow> decoder_run \<Rightarrow> state \<Rightarrow> (error + Layer option) \<times> state" where
  "extractLayer e layer run s =
     (let productPath = product_path e (GRIB_HOME e) (product layer);
          layerPath = layer_path e (LAYER_HOME e) layer
      in if \<not> existsSync s productPath then (Inr None, log_info (ProductNotFound productPath) s)
         else if existsSync s layerPath then
           (case readJSONSync s (''./'' @ layerPath) of
              Inl err \<Rightarrow> (Inl err, s)
            | Inr [] \<Rightarrow> (Inl TypeError, s)
            | Inr (r # rs) \<Rightarrow>
                if date_ge (newDate e (refTime (header r))) (date (cycle (product layer)))
                then (Inr (Some layer), log_info (NewerLayerExists layerPath) s)
                else grib2json e layer productPath layerPath run
                       (log_info (ReplacingObsolete layerPath) s))
         else grib2json e layer productPath layerPath run s)"

section \<open>Publish\<close>

text \<open>
  The predicate \<^verbatim>\<open>isNewerThan(existing)\<close> that \<^verbatim>\<open>pushLayer\<close> hands to the upload.
  \<open>refTime\<close> is \<open>None\<close> for \<^verbatim>\<open>undefined\<close>; \<^verbatim>\<open>!refTime\<close> holds of
  \<^verbatim>\<open>undefined\<close> and of the empty string.
\<close>

definition falsy :: "string option \<Rightarrow> bool" where
  "falsy v = (case v of None \<Rightarrow> True | Some x \<Rightarrow> x = [])"

definition newDate_of :: "env \<Rightarrow> string option \<Rightarrow> int option" where
  "newDate_of e v = (case v of None \<Rightarrow> None | Some x \<Rightarrow> newDate e x)"

definition isNewerThan :: "env \<Rightarrow> Layer \<Rightarrow> s3head \<Rightarrow> bool" where
  "isNewerThan e layer existing =
     (let refTime = map_of (case hMetadata existing of None \<Rightarrow> [] | Some m \<Rightarrow> m)
                      ''reference-time''
      in falsy refTime \<or> date_lt (newDate_of e refTime) (date (cycle (product layer)))
           \<or> isCurrent layer)"

definition pushLayer ::
  "env \<Rightarrow> Layer option \<Rightarrow> error + s3result \<Rightarrow> state \<Rightarrow> (error + jsvalue) \<times> state" where
  "pushLayer e l put s =
     (case l of
        None \<Rightarrow> (Inr VNull, s)
      | Some layer \<Rightarrow>
          (let layerPath = layer_path e (LAYER_HOME e) layer in
           if \<not> existsSync s layerPath then
             (Inr VNull, log_info (LayerFileNotFound layerPath) s)
           else
             (let key = layer_path e (S3_LAYER_HOME e) layer;
                  metadata = [(''reference-time'', toISOString e (date (cycle (product layer))))];
                  cacheControl = cacheControlFor e layer
              in case uploadFile layerPath (S3_BUCKET e) key metadata (isNewerThan e layer)
                        cacheControl put s of
                   (Inl err, s1) \<Rightarrow> (Inl err, s1)
                 | (Inr result, s1) \<Rightarrow> (Inr VTrue, log_info (Pushed key result) s1))))"

section \<open>Tasks: the stages turn by turn\<close>

text \<open>
  A stage function does not run in one piece. Its call runs up to the first request it
  makes of the outside (a timer, a transfer, the decoder, the remote store), and each
  answer runs one callback. Between two such turns the turns of other tasks may run:
  \<^verbatim>\<open>when.map\<close> starts its tasks without waiting for one another. A task is a stage
  function stopped between two turns, and a step runs its next turn on the state it
  finds. The throttles of \<^verbatim>\<open>when/guard\<close> only hold back the first turn of a task, so
  every order in which the program runs the turns is an order of steps here.

  The answers from outside are numbered: the transfer requested as the n-th, the decoder
  run started as the n-th, the upload that is the n-th request to the remote store.
\<close>

record oracles =
  gets :: "nat \<Rightarrow> download_outcome"
  runs :: "nat \<Rightarrow> decoder_run"
  puts :: "nat \<Rightarrow> error + s3result"

text \<open>
  \<^verbatim>\<open>download(product)\<close>: not yet called; waiting for the politeness delay, with the
  server taken; transferring, with the number of the request; settled.
\<close>

datatype dtask =
    DStart Product
  | DDelay Product string string string
  | DTransfer Product string string string nat
  | DSettled "error + Product"

definition download_step :: "env \<Rightarrow> oracles \<Rightarrow> dtask \<Rightarrow> state \<Rightarrow> dtask \<times> state" where
  "download_step e orc t s =
     (case t of
        DStart p \<Rightarrow>
          (let localPath = product_path e (GRIB_HOME e) p in
           if existsSync s localPath then
             (DSettled (Inr p), log_info (AlreadyExists localPath) s)
           else
             (let (server, s1) = nextServer e s;
                  remotePath = product_path e (''http://'' @ server) p
              in (DDelay p server remotePath localPath, log_info (Get remotePath) s1)))
      | DDelay p server remotePath localPath \<Rightarrow>
          (DTransfer p server remotePath localPath (length (requests s)),
           s\<lparr>requests := requests s @ [remotePath]\<rparr>)
      | DTransfer p server remotePath localPath n \<Rightarrow>
          (case download_then e p server remotePath localPath (gets orc n) s of
             (res, s') \<Rightarrow> (DSettled res, s'))
      | DSettled res \<Rightarrow> (DSettled res, s))"

text \<open>
  \<^verbatim>\<open>extractLayer(layer)\<close>: not yet called; the decoder running, with the run that
  \<^verbatim>\<open>createTemp\<close> and the decoder make of it; settled.
\<close>

datatype etask =
    EStart Layer
  | ERunning Layer string string decoder_run
  | ESettled "error + Layer option"

definition extract_step :: "env \<Rightarrow> oracles \<Rightarrow> etask \<Rightarrow> state \<Rightarrow> etask \<times> state" where
  "extract_step e orc t s =
     (case t of
        EStart layer \<Rightarrow>
          (let productPath = product_path e (GRIB_HOME e) (product layer);
               layerPath = layer_path e (LAYER_HOME e) layer;
               run = runs orc (length (decoded s));
               args = filter_args (recipe layer) @ '' '' @ GRIB2JSON_FLAGS @ '' -o ''
                        @ tempPath run @ '' '' @ productPath
           in if \<not> existsSync s productPath then
                (ESettled (Inr None), log_info (ProductNotFound productPath) s)
              else if existsSync s layerPath then
                (case readJSONSync s (''./'' @ layerPath) of
                   Inl err \<Rightarrow> (ESettled (Inl err), s)
                 | Inr [] \<Rightarrow> (ESettled (Inl TypeError), s)
                 | Inr (r # rs) \<Rightarrow>
                     if date_ge (newDate e (refTime (header r))) (date (cycle (product layer)))
                     then (ESettled (Inr (Some layer)), log_info (NewerLayerExists layerPath) s)
                     else (ERunning layer productPath layerPath run,
                           (log_info (ReplacingObsolete layerPath) s)
                             \<lparr>decoded := decoded s @ [args]\<rparr>))
              else (ERunning layer productPath layerPath run,
                    s\<lparr>decoded := decoded s @ [args]\<rparr>))
      | ERunning layer productPath layerPath run \<Rightarrow>
          (case extractLayer_then e layer productPath layerPath run s of
             (res, s') \<Rightarrow> (ESettled res, s'))
      | ESettled res \<Rightarrow> (ESettled res, s))"

text \<open>
  \<^verbatim>\<open>pushLayer(layer)\<close>: not yet called; the metadata fetch of the conditional upload
  under way; the upload under way, with the body read and the number of the request;
  settled. The turns of the upload are those of \<open>uploadFile\<close>, modelled from the spec.
\<close>

datatype ptask =
    PStart "Layer option"
  | PHead Layer
  | PPut Layer fcontent nat
  | PSettled "error + jsvalue"

definition push_step :: "env \<Rightarrow> oracles \<Rightarrow> ptask \<Rightarrow> state \<Rightarrow> ptask \<times> state" where
  "push_step e orc t s =
     (case t of
        PStart None \<Rightarrow> (PSettled (Inr VNull), s)
      | PStart (Some layer) \<Rightarrow>
          (let layerPath = layer_path e (LAYER_HOME e) layer in
           if \<not> existsSync s layerPath then
             (PSettled (Inr VNull), log_info (LayerFileNotFound layerPath) s)
           else
             (PHead layer, s\<lparr>s3log := s3log s @ [Head (layer_path e (S3_LAYER_HOME e) layer)]\<rparr>))
      | PHead layer \<Rightarrow>
          (let layerPath = layer_path e (LAYER_HOME e) layer;
               key = layer_path e (S3_LAYER_HOME e) layer;
               metadata = [(''reference-time'', toISOString e (date (cycle (product layer))))];
               cacheControl = cacheControlFor e layer
           in if isNewerThan e layer (headObject s key) then
                (case files s layerPath of
                   None \<Rightarrow> (PSettled (Inl (NoSuchFile layerPath)), s)
                 | Some body \<Rightarrow>
                     (PPut layer body (length (s3log s)),
                      s\<lparr>s3log := s3log s @ [Put key metadata cacheControl]\<rparr>))
              else (PSettled (Inr VTrue), log_info (Pushed key None) s))
      | PPut layer body n \<Rightarrow>
          (let key = layer_path e (S3_LAYER_HOME e) layer;
               metadata = [(''reference-time'', toISOString e (date (cycle (product layer))))];
               cacheControl = cacheControlFor e layer
           in case puts orc n of
                Inl err \<Rightarrow> (PSettled (Inl err), s)
              | Inr res \<Rightarrow>
                  (PSettled (Inr VTrue),
                   log_info (Pushed key (Some res))
                     (s\<lparr>remote := (remote s)(key \<mapsto>
                           \<lparr>Metadata = metadata, CacheControl = cacheControl, Body = body\<rparr>)\<rparr>)))
      | PSettled res \<Rightarrow> (PSettled res, s))"

fun dsettled :: "dtask \<Rightarrow> bool" where
  "dsettled (DSettled res) = True"
| "dsettled t = False"

fun esettled :: "etask \<Rightarrow> bool" where
  "esettled (ESettled res) = True"
| "esettled t = False"

fun psettled :: "ptask \<Rightarrow> bool" where
  "psettled (PSettled res) = True"
| "psettled t = False"

fun drejection :: "dtask \<Rightarrow> error option" where
  "drejection (DSettled (Inl err)) = Some err"
| "drejection t = None"

fun erejection :: "etask \<Rightarrow> error option" where
  "erejection (ESettled (Inl err)) = Some err"
| "erejection t = None"

fun prejection :: "ptask \<Rightarrow> error option" where
  "prejection (PSettled (Inl err)) = Some err"
| "prejection t = None"

section \<open>Cycle scheduler\<close>

text \<open>The products that \<^verbatim>\<open>processCycle\<close> builds: the two nested \<^verbatim>\<open>forEach\<close>.\<close>

definition processCycle_products :: "env \<Rightarrow> Cycle \<Rightarrow> Product list" where
  "processCycle_products e c =
     concat (map (\<lambda>t. map (\<lambda>forecastHour. gfs_product t c forecastHour) (forecasts e))
               PRODUCT_TYPES)"

text \<open>
  What a call of \<^verbatim>\<open>processCycle\<close> leaves behind: the three chained \<^verbatim>\<open>when.map\<close>
  of one cycle. Every download runs; when all have settled, the extractions of all
  downloaded products run; when all have settled, the pushes of all extracted layers run.
  A stage with a rejected task rejects the chain, with the first rejection in time
  (\<open>failure\<close>), and the later stages are never started; the tasks of the stage itself
  still run to their end.
\<close>

datatype phase = Downloading | Extracting | Pushing | Finished "error + unit"

record batch =
  bcycle :: Cycle
  phase :: phase
  dtasks :: "dtask list"
  etasks :: "etask list"
  ptasks :: "ptask list"
  failure :: "error option"

definition note_failure :: "error option \<Rightarrow> batch \<Rightarrow> batch" where
  "note_failure r b = (case failure b of None \<Rightarrow> b\<lparr>failure := r\<rparr> | Some err \<Rightarrow> b)"

text \<open>
  \<^verbatim>\<open>extractLayers(product)\<close> and \<^verbatim>\<open>pushLayers(layers)\<close>: the tasks that their
  \<^verbatim>\<open>when.map\<close> starts.
\<close>

definition extractLayers :: "Product \<Rightarrow> etask list" where
  "extractLayers p = map (\<lambda>r. EStart (gfs_layer r p False)) LAYER_RECIPES"

definition pushLayers :: "Layer option list \<Rightarrow> ptask list" where
  "pushLayers layers = map PStart layers"

text \<open>The values that the settled tasks of a stage hand to the next stage.\<close>

fun downloads :: "dtask list \<Rightarrow> Product list" where
  "downloads [] = []"
| "downloads (DSettled (Inr p) # ts) = p # downloads ts"
| "downloads (t # ts) = downloads ts"

fun extracted :: "etask list \<Rightarrow> Layer option list" where
  "extracted [] = []"
| "extracted (ESettled (Inr l) # ts) = l # extracted ts"
| "extracted (t # ts) = extracted ts"

text \<open>
  The synchronous part of \<^verbatim>\<open>processCycle(cycle)\<close>: the log line, the products, and
  the chain with every download still to be called.
\<close>

definition processCycle :: "env \<Rightarrow> Cycle \<Rightarrow> state \<Rightarrow> batch \<times> state" where
  "processCycle e c s =
     (let s0 = log_info (CycleStart c) s;
          products = processCycle_products e c
      in (\<lparr>bcycle = c, phase = Downloading, dtasks = map DStart products, etasks = [],
           ptasks = [], failure = None\<rparr>, s0))"

text \<open>
  One step of a chain: the next turn of task \<open>j\<close> of the stage that is running, or, when
  every task of the stage has settled, the passage to the next stage.
\<close>

definition step_batch :: "env \<Rightarrow> oracles \<Rightarrow> nat \<Rightarrow> batch \<Rightarrow> state \<Rightarrow> batch \<times> state" where
  "step_batch e orc j b s =
     (case phase b of
        Downloading \<Rightarrow>
          if list_all dsettled (dtasks b) then
            (case failure b of
               Some err \<Rightarrow> (b\<lparr>phase := Finished (Inl err)\<rparr>, s)
             | None \<Rightarrow>
                 (b\<lparr>phase := Extracting,
                    etasks := concat (map extractLayers (downloads (dtasks b)))\<rparr>, s))
          else if j < length (dtasks b) then
            (case download_step e orc (dtasks b ! j) s of
               (t, s') \<Rightarrow> (note_failure (drejection t) (b\<lparr>dtasks := (dtasks b)[j := t]\<rparr>), s'))
          else (b, s)
      | Extracting \<Rightarrow>
          if list_all esettled (etasks b) then
            (case failure b of
               Some err \<Rightarrow> (b\<lparr>phase := Finished (Inl err)\<rparr>, s)
             | None \<Rightarrow> (b\<lparr>phase := Pushing, ptasks := pushLayers (extracted (etasks b))\<rparr>, s))
          else if j < length (etasks b) then
            (case extract_step e orc (etasks b ! j) s of
               (t, s') \<Rightarrow> (note_failure (erejection t) (b\<lparr>etasks := (etasks b)[j := t]\<rparr>), s'))
          else (b, s)
      | Pushing \<Rightarrow>
          if list_all psettled (ptasks b) then
            (case failure b of
               Some err \<Rightarrow> (b\<lparr>phase := Finished (Inl err)\<rparr>, s)
             | None \<Rightarrow> (b\<lparr>phase := Finished (Inr ())\<rparr>, log_info BatchComplete s))
          else if j < length (ptasks b) then
            (case push_step e orc (ptasks b ! j) s of
               (t, s') \<Rightarrow> (note_failure (prejection t) (b\<lparr>ptasks := (ptasks b)[j := t]\<rparr>), s'))
          else (b, s)
      | Finished res \<Rightarrow> (b, s))"

text \<open>
  The \<^verbatim>\<open>while\<close> loop of \<^verbatim>\<open>processCycles\<close>: it calls \<^verbatim>\<open>processCycle\<close> on the
  cycle and pushes the chain onto \<open>result\<close>, then steps to the previous cycle.
\<close>

function processCycles_loop ::
  "env \<Rightarrow> Cycle \<Rightarrow> Cycle \<Rightarrow> batch list \<Rightarrow> state \<Rightarrow> batch list \<times> state" where
  "processCycles_loop e c stop result s =
     (if date c \<ge> date stop then
        (case processCycle e c s of
           (b, s') \<Rightarrow> processCycles_loop e (cycle_previous c) stop (result @ [b]) s')
      else (result, s))"
  by pat_completeness auto
termination
  by (relation "measure (\<lambda>(e, c, stop, result, s). nat (date c - date stop + 1))")
     (auto simp: cycle_previous_def CYCLE_PERIOD_def)

declare processCycles_loop.simps [simp del]

text \<open>
  \<^verbatim>\<open>processCycles({from: .., until: ..})\<close> for two valid dates: the chains that
  \<^verbatim>\<open>when.all\<close> joins, one for each call of \<^verbatim>\<open>processCycle\<close>.
\<close>

definition processCycles :: "env \<Rightarrow> int \<Rightarrow> int \<Rightarrow> state \<Rightarrow> batch list \<times> state" where
  "processCycles e from_date until_date s =
     (let stop = gfs_cycle e until_date;
          c = gfs_cycle e from_date
      in processCycles_loop e c stop [] s)"

text \<open>
  A run of the chains: a schedule names, turn by turn, the chain and the task that has its
  turn. The chains of all cycles run side by side.
\<close>

fun run_chains :: "env \<Rightarrow> oracles \<Rightarrow> (nat \<times> nat) list \<Rightarrow> batch list \<times> state \<Rightarrow> batch list \<times> state" where
  "run_chains e orc [] cfg = cfg"
| "run_chains e orc ((i, j) # sched) (bs, s) =
     (if i < length bs then
        (case step_batch e orc j (bs ! i) s of
           (b, s') \<Rightarrow> run_chains e orc sched (bs[i := b], s'))
      else run_chains e orc sched (bs, s))"

section \<open>Current resolver\<close>

text \<open>
  The first loop of \<^verbatim>\<open>copyCurrent\<close>: step back while the product's validity time is
  after \<open>now\<close>. \<open>None\<close> means that the loop does not end.
\<close>

partial_function (option) skipFuture :: "env \<Rightarrow> int \<Rightarrow> Layer \<Rightarrow> Layer option" where
  "skipFuture e now mostRecentLayer =
     (if product_date (product mostRecentLayer) > now
      then skipFuture e now (layer_previous e mostRecentLayer)
      else Some mostRecentLayer)"

declare skipFuture.simps [code]

text \<open>
  The second loop: step back until the layer's file exists; \<open>Some None\<close> is the early
  return when the product is older than three days.
\<close>

partial_function (option) findOnDisk ::
  "env \<Rightarrow> state \<Rightarrow> int \<Rightarrow> Layer \<Rightarrow> Layer option option" where
  "findOnDisk e s threeDaysAgo mostRecentLayer =
     (if \<not> existsSync s (layer_path e (LAYER_HOME e) mostRecentLayer) then
        (let previous = layer_previous e mostRecentLayer in
         if product_date (product previous) < threeDaysAgo then Some None
         else findOnDisk e s threeDaysAgo previous)
      else Some (Some mostRecentLayer))"

declare findOnDisk.simps [code]

text \<open>
  The callback of the \<^verbatim>\<open>map\<close> over the recipes, for one recipe: the alias is
  removed if there is one, and a read stream on the dated layer's file is piped into a
  write stream on the alias. The streams open later, in either order: the write stream
  creates the alias file, empty; the read stream takes the content of the dated file, and
  if there is no such file its \<^verbatim>\<open>error\<close> event, which nothing listens to, ends the
  process. When both are open the copy finishes, and the alias Layer goes to
  \<^verbatim>\<open>pushLayer\<close>.
\<close>

datatype ctask = Copying Layer Layer bool "fcontent option" | Publishing ptask

datatype cturn = OpenRead | OpenWrite | Advance

record resolver =
  ctasks :: "ctask list"
  crashed :: bool

definition copy_start :: "env \<Rightarrow> Product \<Rightarrow> Recipe \<Rightarrow> state \<Rightarrow> ctask \<times> state" where
  "copy_start e p r s =
     (let src = gfs_layer r p False;
          dest = gfs_layer r p True;
          destPath = layer_path e (LAYER_HOME e) dest
      in (Copying src dest False None,
          if existsSync s destPath then s\<lparr>files := (files s)(destPath := None)\<rparr> else s))"

fun copy_starts :: "env \<Rightarrow> Product \<Rightarrow> Recipe list \<Rightarrow> state \<Rightarrow> ctask list \<times> state" where
  "copy_starts e p [] s = ([], s)"
| "copy_starts e p (r # rs) s =
     (case copy_start e p r s of
        (t, s1) \<Rightarrow> (case copy_starts e p rs s1 of (ts, s2) \<Rightarrow> (t # ts, s2)))"

text \<open>
  \<^verbatim>\<open>copyCurrent\<close> from the point where a layer has been found on disk, up to its
  \<^verbatim>\<open>return pushLayers(layers)\<close>. A header whose reference time is not a date has no
  Cycle; the model stops there with \<open>InvalidDate\<close>.
\<close>

definition copyCurrent_found ::
  "env \<Rightarrow> Layer \<Rightarrow> state \<Rightarrow> (error + resolver option) \<times> state" where
  "copyCurrent_found e mostRecentLayer s =
     (case readJSONSync s (layer_path e (''./'' @ LAYER_HOME e) mostRecentLayer) of
        Inl err \<Rightarrow> (Inl err, s)
      | Inr [] \<Rightarrow> (Inl TypeError, s)
      | Inr (r # rs) \<Rightarrow>
          (case newDate e (refTime (header r)) of
             None \<Rightarrow> (Inl InvalidDate, s)
           | Some t \<Rightarrow>
               (let p = gfs_product (PRODUCT_TYPES ! 0) (gfs_cycle e t) (forecastTime (header r))
                in case copy_starts e p LAYER_RECIPES s of
                     (layers, s1) \<Rightarrow> (Inr (Some \<lparr>ctasks = layers, crashed = False\<rparr>), s1))))"

text \<open>
  The synchronous part of \<^verbatim>\<open>copyCurrent()\<close> at wall-clock time \<open>now\<close>; the outer
  \<open>None\<close> is a search that does not end, the inner one the return without a value.
\<close>

definition copyCurrent ::
  "env \<Rightarrow> int \<Rightarrow> state \<Rightarrow> ((error + resolver option) \<times> state) option" where
  "copyCurrent e now s =
     (let threeDaysAgo = now - 3 * 24 * 60 * 60 * 1000;
          start = gfs_layer wi1000
                    (gfs_product (PRODUCT_TYPES ! 0) (cycle_next (gfs_cycle e now)) 0) False
      in case skipFuture e now start of
           None \<Rightarrow> None
         | Some nominal \<Rightarrow>
             (case findOnDisk e s threeDaysAgo nominal of
                None \<Rightarrow> None
              | Some None \<Rightarrow> Some (Inr None, log_info NoRecentLayers s)
              | Some (Some mostRecentLayer) \<Rightarrow> Some (copyCurrent_found e mostRecentLayer s)))"

text \<open>One turn of the resolver's tasks; after the end of the process nothing runs.\<close>

definition copy_step :: "env \<Rightarrow> cturn \<Rightarrow> Layer \<Rightarrow> Layer \<Rightarrow> bool \<Rightarrow> fcontent option \<Rightarrow> state
     \<Rightarrow> (ctask option) \<times> state" where
  "copy_step e turn src dest opened content s =
     (let srcPath = layer_path e (LAYER_HOME e) src;
          destPath = layer_path e (LAYER_HOME e) dest
      in case turn of
           OpenRead \<Rightarrow>
             (if content \<noteq> None then (Some (Copying src dest opened content), s)
              else (case files s srcPath of
                      None \<Rightarrow> (None, s)
                    | Some body \<Rightarrow> (Some (Copying src dest opened (Some body)), s)))
         | OpenWrite \<Rightarrow>
             (if opened then (Some (Copying src dest opened content), s)
              else (Some (Copying src dest True content),
                    s\<lparr>files := (files s)(destPath \<mapsto> Empty)\<rparr>))
         | Advance \<Rightarrow>
             (case content of
                None \<Rightarrow> (Some (Copying src dest opened content), s)
              | Some body \<Rightarrow>
                  if opened then
                    (Some (Publishing (PStart (Some dest))),
                     s\<lparr>files := (files s)(destPath \<mapsto> body)\<rparr>)
                  else (Some (Copying src dest opened content), s)))"

definition current_step ::
  "env \<Rightarrow> oracles \<Rightarrow> nat \<Rightarrow> cturn \<Rightarrow> resolver \<Rightarrow> state \<Rightarrow> resolver \<times> state" where
  "current_step e orc i turn cfg s =
     (if crashed cfg \<or> \<not> i < length (ctasks cfg) then (cfg, s)
      else
        (case ctasks cfg ! i of
           Copying src dest opened content \<Rightarrow>
             (case copy_step e turn src dest opened content s of
                (None, s') \<Rightarrow> (cfg\<lparr>crashed := True\<rparr>, s')
              | (Some t, s') \<Rightarrow> (cfg\<lparr>ctasks := (ctasks cfg)[i := t]\<rparr>, s'))
         | Publishing t \<Rightarrow>
             (case turn of
                Advance \<Rightarrow>
                  (case push_step e orc t s of
                     (t', s') \<Rightarrow> (cfg\<lparr>ctasks := (ctasks cfg)[i := Publishing t']\<rparr>, s'))
              | OpenRead \<Rightarrow> (cfg, s)
              | OpenWrite \<Rightarrow> (cfg, s))))"

fun run_current ::
  "env \<Rightarrow> oracles \<Rightarrow> (nat \<times> cturn) list \<Rightarrow> resolver \<times> state \<Rightarrow> resolver \<times> state" where
  "run_current e orc [] cfg = cfg"
| "run_current e orc ((i, turn) # sched) (cfg, s) =
     run_current e orc sched (current_step e orc i turn cfg s)"

fun published :: "ctask \<Rightarrow> bool" where
  "published (Publishing (PSettled res)) = True"
| "published t = False"

section \<open>Invariants of the runs\<close>

text \<open>
  The layers for which a cycle's chain starts an extraction, in the order of its tasks.
\<close>

definition processCycle_layers :: "env \<Rightarrow> Cycle \<Rightarrow> Layer list" where
  "processCycle_layers e c =
     concat (map (\<lambda>p. map (\<lambda>r. gfs_layer r p False) LAYER_RECIPES) (processCycle_products e c))"

text \<open>
  What the turns of a run never undo: a file that exists, a request made to the remote
  store.
\<close>

definition grows :: "state \<Rightarrow> state \<Rightarrow> bool" where
  "grows s s' = ((\<forall>p. existsSync s p \<longrightarrow> existsSync s' p) \<and> set (s3log s) \<subseteq> set (s3log s'))"

text \<open>A task belongs to its product or layer, and carries what its turns have achieved.\<close>

fun dtask_for :: "Product \<Rightarrow> dtask \<Rightarrow> bool" where
  "dtask_for p (DStart q) = (q = p)"
| "dtask_for p (DDelay q server remotePath localPath) = (q = p)"
| "dtask_for p (DTransfer q server remotePath localPath n) = (q = p)"
| "dtask_for p (DSettled (Inr q)) = (q = p)"
| "dtask_for p (DSettled (Inl err)) = True"

fun etask_for :: "env \<Rightarrow> state \<Rightarrow> Layer \<Rightarrow> etask \<Rightarrow> bool" where
  "etask_for e s l (EStart k) = (k = l)"
| "etask_for e s l (ERunning k productPath layerPath r) =
     (k = l \<and> layerPath = layer_path e (LAYER_HOME e) l)"
| "etask_for e s l (ESettled (Inr None)) = True"
| "etask_for e s l (ESettled (Inr (Some k))) =
     (k = l \<and> existsSync s (layer_path e (LAYER_HOME e) l))"
| "etask_for e s l (ESettled (Inl err)) = True"

fun ptask_for :: "env \<Rightarrow> state \<Rightarrow> Layer option \<Rightarrow> ptask \<Rightarrow> bool" where
  "ptask_for e s l (PStart k) = (k = l)"
| "ptask_for e s l (PHead k) =
     (l = Some k \<and> Head (layer_path e (S3_LAYER_HOME e) k) \<in> set (s3log s))"
| "ptask_for e s l (PPut k body n) =
     (l = Some k \<and> Head (layer_path e (S3_LAYER_HOME e) k) \<in> set (s3log s))"
| "ptask_for e s l (PSettled res) =
     (case l of None \<Rightarrow> True
      | Some k \<Rightarrow> Head (layer_path e (S3_LAYER_HOME e) k) \<in> set (s3log s))"

fun eresolved :: "etask \<Rightarrow> bool" where
  "eresolved (ESettled (Inr l)) = True"
| "eresolved t = False"

definition pushing_inv :: "env \<Rightarrow> batch \<Rightarrow> state \<Rightarrow> bool" where
  "pushing_inv e b s =
     (list_all2 (etask_for e s) (processCycle_layers e (bcycle b)) (etasks b)
      \<and> list_all eresolved (etasks b)
      \<and> list_all2 (ptask_for e s) (extracted (etasks b)) (ptasks b))"

definition batch_inv :: "env \<Rightarrow> batch \<Rightarrow> state \<Rightarrow> bool" where
  "batch_inv e b s =
     (list_all2 dtask_for (processCycle_products e (bcycle b)) (dtasks b)
      \<and> (case phase b of
             Downloading \<Rightarrow>
               (failure b = None \<longrightarrow> list_all (\<lambda>t. drejection t = None) (dtasks b))
           | Extracting \<Rightarrow>
               list_all2 (etask_for e s) (processCycle_layers e (bcycle b)) (etasks b)
               \<and> (failure b = None \<longrightarrow> list_all (\<lambda>t. erejection t = None) (etasks b))
           | Pushing \<Rightarrow> pushing_inv e b s
           | Finished res \<Rightarrow>
               (res = Inr () \<longrightarrow> pushing_inv e b s \<and> list_all psettled (ptasks b))))"
section \<open>Observations on the request log\<close>

text \<open>The uploads in a log of requests.\<close>

fun put_reqs :: "s3req list \<Rightarrow> s3req list" where
  "put_reqs [] = []"
| "put_reqs (Head k # xs) = put_reqs xs"
| "put_reqs (Put k m c # xs) = Put k m c # put_reqs xs"

section \<open>A concrete environment\<close>

text \<open>
  An environment and states on which the definitions are evaluated: dates around the
  epoch, layer files named by validity time, products stepped back three hours at a time.
\<close>

definition iso0 :: "int \<Rightarrow> string" where
  "iso0 t =
     (if t = - 21600000 then ''1969-12-31T18:00:00.000Z''
      else if t = 0 then ''1970-01-01T00:00:00.000Z''
      else if t = 10800000 then ''1970-01-01T03:00:00.000Z''
      else if t = 21600000 then ''1970-01-01T06:00:00.000Z''
      else if t = 32400000 then ''1970-01-01T09:00:00.000Z''
      else if t = 43200000 then ''1970-01-01T12:00:00.000Z''
      else ''other'')"

definition parse0 :: "string \<Rightarrow> int option" where
  "parse0 x =
     (if x = ''1969-12-31T18:00:00.000Z'' then Some (- 21600000)
      else if x = ''1970-01-01T00:00:00.000Z'' then Some 0
      else if x = ''1970-01-01T03:00:00.000Z'' then Some 10800000
      else if x = ''1970-01-01T06:00:00.000Z'' then Some 21600000
      else if x = ''1970-01-01T09:00:00.000Z'' then Some 32400000
      else if x = ''1970-01-01T12:00:00.000Z'' then Some 43200000
      else None)"

definition previous0 :: "Product \<Rightarrow> Product" where
  "previous0 p =
     (if forecastHour p = 0 then p\<lparr>cycle := cycle_previous (cycle p), forecastHour := 3\<rparr>
      else p\<lparr>forecastHour := forecastHour p - 3\<rparr>)"

definition env0 :: env where
  "env0 =
     \<lparr>GRIB_HOME = ''grib/'', LAYER_HOME = ''layer/'', forecasts = [0, 3],
      NOMADS = ''nomads.example/'', NCEP = ''ncep.example/'', S3_LAYER_HOME = ''data/'', S3_BUCKET = ''bucket'',
      toGrid = (\<lambda>t. t - t mod CYCLE_PERIOD),
      productRel = (\<lambda>p. iso0 (date (cycle p)) @ (if forecastHour p = 0 then ''-f000'' else ''-f003'')),
      layerRel = (\<lambda>l. (if isCurrent l then ''current/current'' else iso0 (product_date (product l)))
                        @ ''-'' @ name (recipe l) @ ''.json''),
      productPrevious = previous0,
      cacheControlFor = (\<lambda>l. if isCurrent l then ''no-cache'' else ''max-age=31536000''),
      newDate = parse0,
      toISOString = iso0\<rparr>"

definition cycle0 :: Cycle where
  "cycle0 = \<lparr>date = 21600000\<rparr>"

definition product0 :: Product where
  "product0 = gfs_product ''1.0'' cycle0 0"

definition layer0 :: Layer where
  "layer0 = gfs_layer wi10 product0 False"

definition rec0 :: "int \<Rightarrow> Rec" where
  "rec0 t = \<lparr>header = \<lparr>refTime = iso0 t, forecastTime = 0\<rparr>, meta = None\<rparr>"

definition state0 :: state where
  "state0 =
     \<lparr>files = Map.empty, servers = [''nomads.example/'', ''ncep.example/''], requests = [], decoded = [],
      remote = Map.empty, s3log = [], logged = []\<rparr>"

text \<open>
  A state in which the file of \<open>layer0\<close> exists, built from a cycle at \<open>built\<close>, and the
  remote store holds the layer's object with reference time \<open>stored\<close>.
\<close>

definition state_pub :: "int \<Rightarrow> int \<Rightarrow> state" where
  "state_pub built stored =
     state0
       \<lparr>files := [layer_path env0 (LAYER_HOME env0) layer0 \<mapsto> Records [rec0 built]],
        remote := [layer_path env0 (S3_LAYER_HOME env0) layer0 \<mapsto>
                     \<lparr>Metadata = [(''reference-time'', iso0 stored)],
                      CacheControl = ''max-age=31536000'',
                      Body = Records [rec0 stored]\<rparr>]\<rparr>"

text \<open>The same with the raw file of \<open>product0\<close> on disk as well.\<close>

definition state_ext :: "int \<Rightarrow> int \<Rightarrow> state" where
  "state_ext built stored =
     (state_pub built stored)
       \<lparr>files := (files (state_pub built stored))
                   (product_path env0 (GRIB_HOME env0) product0 \<mapsto> Grib)\<rparr>"

definition run0 :: "Rec list \<Rightarrow> int \<Rightarrow> decoder_run" where
  "run0 rs code = \<lparr>tempPath = ''/tmp/t1.json'', returnCode = code, outputRecords = rs\<rparr>"

text \<open>
  A state for the current resolver: the only layer files on disk are those valid at 03:00,
  and their headers say that they come from the 18:00 cycle of the day before, nine hours
  ahead.
\<close>

definition product_cur :: Product where
  "product_cur = gfs_product ''1.0'' \<lparr>date = - 21600000\<rparr> 9"

definition rec_cur :: Rec where
  "rec_cur = \<lparr>header = \<lparr>refTime = ''1969-12-31T18:00:00.000Z'', forecastTime = 9\<rparr>,
              meta = Some ''1970-01-01T03:00:00.000Z''\<rparr>"

definition state_cur :: state where
  "state_cur =
     state0
       \<lparr>files := map_of (map (\<lambda>r. (layer_path env0 (LAYER_HOME env0) (gfs_layer r product_cur False),
                                    Records [rec_cur]))
                          LAYER_RECIPES)\<rparr>"

text \<open>
  The same environment with an absolute layer root, and a state in which the files of
  \<open>product0\<close> and of \<open>layer0\<close> under that root exist.
\<close>

definition env_abs :: env where
  "env_abs = env0\<lparr>LAYER_HOME := ''/srv/layer/''\<rparr>"

definition state_abs :: "int \<Rightarrow> state" where
  "state_abs built =
     state0
       \<lparr>files := [layer_path env_abs (LAYER_HOME env_abs) layer0 \<mapsto> Records [rec0 built],
                  product_path env_abs (GRIB_HOME env_abs) product0 \<mapsto> Grib]\<rparr>"

text \<open>
  Answers from outside: every transfer ends with status 200, every decoder run exits with
  code 0 and one record of the 06:00 cycle, every upload is accepted.
\<close>

definition orc0 :: oracles where
  "orc0 =
     \<lparr>gets = (\<lambda>n. DResolved \<lparr>statusCode = 200, received = 1, duration = 1\<rparr>),
      runs = (\<lambda>n. run0 [rec0 21600000] 0),
      puts = (\<lambda>n. Inr (PutResult ''etag''))\<rparr>"

section \<open>Auxiliary facts\<close>

lemmas fixture_defs =
  env0_def state0_def state_pub_def state_ext_def layer0_def product0_def cycle0_def rec0_def
  run0_def iso0_def parse0_def wi10_def gfs_layer_def gfs_product_def product_date_def
  layer_path_def product_path_def existsSync_def isAbsolute_def

lemma download_existing:
  assumes "existsSync s (product_path e (GRIB_HOME e) p)"
  shows "download e p out s = (Inr p, log_info (AlreadyExists (product_path e (GRIB_HOME e) p)) s)"
  using assms by (simp add: download_def)

lemma download_requests_le:
  "length (requests (snd (download e p out s))) \<le> length (requests s) + 1"
  by (auto simp: download_def download_then_def nextServer_def releaseServer_def log_info_def
      Let_def split: download_outcome.splits prod.splits)

lemma isNewerThan_iff:
  "isNewerThan e l (headObject s key) \<longleftrightarrow>
     (let stored = (case remote s key of None \<Rightarrow> None
                    | Some obj \<Rightarrow> map_of (Metadata obj) ''reference-time'')
      in stored = None \<or> stored = Some []
         \<or> (\<exists>x t. stored = Some x \<and> newDate e x = Some t \<and> t < date (cycle (product l)))
         \<or> isCurrent l)"
  by (auto simp: isNewerThan_def headObject_def falsy_def date_lt_def newDate_of_def Let_def
      split: option.splits)

lemma pushLayer_s3log:
  assumes "existsSync s (layer_path e (LAYER_HOME e) l)"
  shows "s3log (snd (pushLayer e (Some l) put s)) =
           s3log s @ Head (layer_path e (S3_LAYER_HOME e) l)
             # (if isNewerThan e l (headObject s (layer_path e (S3_LAYER_HOME e) l))
                then [Put (layer_path e (S3_LAYER_HOME e) l)
                        [(''reference-time'', toISOString e (date (cycle (product l))))]
                        (cacheControlFor e l)]
                else [])"
  using assms
  by (auto simp: pushLayer_def uploadFile_def existsSync_def log_info_def Let_def
      split: option.splits sum.splits prod.splits)

lemma pushLayer_None: "pushLayer e None put s = (Inr VNull, s)"
  by (simp add: pushLayer_def)

lemma pushLayer_missing:
  "\<not> existsSync s (layer_path e (LAYER_HOME e) l) \<Longrightarrow>
   pushLayer e (Some l) put s
     = (Inr VNull, log_info (LayerFileNotFound (layer_path e (LAYER_HOME e) l)) s)"
  by (simp add: pushLayer_def)

lemma pushLayer_value:
  assumes "existsSync s (layer_path e (LAYER_HOME e) l)"
  shows "fst (pushLayer e (Some l) put s) =
           (if isNewerThan e l (headObject s (layer_path e (S3_LAYER_HOME e) l))
            then (case put of Inl err \<Rightarrow> Inl err | Inr res \<Rightarrow> Inr VTrue)
            else Inr VTrue)"
  using assms
  by (auto simp: pushLayer_def uploadFile_def existsSync_def Let_def
      split: option.splits sum.splits prod.splits)

lemma extractLayer_then_empty:
  "returnCode run = 0 \<Longrightarrow> outputRecords run = [] \<Longrightarrow>
   extractLayer_then e l pp lp run s
     = (Inr None, log_info (NoLayerData lp) (log_info (Processing lp) s))"
  by (simp add: extractLayer_then_def processLayer_def)

lemma grib2json_empty:
  "returnCode run = 0 \<Longrightarrow> outputRecords run = [] \<Longrightarrow>
   fst (grib2json e l pp lp run s) = Inr None \<and> files (snd (grib2json e l pp lp run s)) = files s"
  by (simp add: grib2json_def extractLayer_then_empty log_info_def Let_def)

lemma extractLayer_cases:
  "(decoded (snd (extractLayer e l run s)) = decoded s)
   \<or> (\<exists>s0. files s0 = files s \<and> decoded s0 = decoded s \<and>
        extractLayer e l run s
          = grib2json e l (product_path e (GRIB_HOME e) (product l))
              (layer_path e (LAYER_HOME e) l) run s0)"
proof (cases "extractLayer e l run s
          = grib2json e l (product_path e (GRIB_HOME e) (product l))
              (layer_path e (LAYER_HOME e) l) run s")
  case True
  then show ?thesis by blast
next
  case False
  show ?thesis
  proof (cases "extractLayer e l run s
          = grib2json e l (product_path e (GRIB_HOME e) (product l))
              (layer_path e (LAYER_HOME e) l) run
              (log_info (ReplacingObsolete (layer_path e (LAYER_HOME e) l)) s)")
    case True
    then have "\<exists>s0. files s0 = files s \<and> decoded s0 = decoded s \<and>
        extractLayer e l run s
          = grib2json e l (product_path e (GRIB_HOME e) (product l))
              (layer_path e (LAYER_HOME e) l) run s0"
      by (intro exI [of _ "log_info (ReplacingObsolete (layer_path e (LAYER_HOME e) l)) s"])
         (simp add: log_info_def)
    then show ?thesis by blast
  next
    case False
    with \<open>extractLayer e l run s \<noteq> grib2json e l (product_path e (GRIB_HOME e) (product l))
              (layer_path e (LAYER_HOME e) l) run s\<close>
    have "decoded (snd (extractLayer e l run s)) = decoded s"
      by (auto simp: extractLayer_def log_info_def Let_def
          split: if_splits sum.splits list.splits)
    then show ?thesis by blast
  qed
qed

lemma extractLayer_skip:
  assumes "existsSync s (product_path e (GRIB_HOME e) (product l))"
    and "files s (layer_path e (LAYER_HOME e) l) = Some (Records (r # rs))"
    and "newDate e (refTime (header r)) = Some t"
    and "\<not> isAbsolute (layer_path e (LAYER_HOME e) l)" and "t \<ge> date (cycle (product l))"
  shows "extractLayer e l run s
           = (Inr (Some l), log_info (NewerLayerExists (layer_path e (LAYER_HOME e) l)) s)"
  using assms
  by (auto simp: extractLayer_def existsSync_def readJSONSync_def resolve_path_def
      date_ge_def Let_def)

lemma extractLayer_obsolete:
  assumes "existsSync s (product_path e (GRIB_HOME e) (product l))"
    and "files s (layer_path e (LAYER_HOME e) l) = Some (Records (r # rs))"
    and "newDate e (refTime (header r)) = Some t"
    and "\<not> isAbsolute (layer_path e (LAYER_HOME e) l)" and "t < date (cycle (product l))"
  shows "extractLayer e l run s
           = grib2json e l (product_path e (GRIB_HOME e) (product l))
               (layer_path e (LAYER_HOME e) l) run
               (log_info (ReplacingObsolete (layer_path e (LAYER_HOME e) l)) s)"
  using assms
  by (auto simp: extractLayer_def existsSync_def readJSONSync_def resolve_path_def
      date_ge_def Let_def)

lemma grib2json_result:
  "grib2json e l pp lp run s =
     (if returnCode run \<noteq> 0 then
        (Inl (DecoderFailed (returnCode run)),
         log_info (Grib2jsonFailed (returnCode run) pp)
           (s\<lparr>decoded := decoded s @ [filter_args (recipe l) @ '' '' @ GRIB2JSON_FLAGS
                                        @ '' -o '' @ tempPath run @ '' '' @ pp]\<rparr>))
      else if outputRecords run = [] then
        (Inr None,
         log_info (NoLayerData lp) (log_info (Processing lp)
           (s\<lparr>decoded := decoded s @ [filter_args (recipe l) @ '' '' @ GRIB2JSON_FLAGS
                                        @ '' -o '' @ tempPath run @ '' '' @ pp]\<rparr>)))
      else
        (Inr (Some l),
         log_info (SuccessfullyBuilt lp)
           ((log_info (Processing lp)
              (s\<lparr>decoded := decoded s @ [filter_args (recipe l) @ '' '' @ GRIB2JSON_FLAGS
                                           @ '' -o '' @ tempPath run @ '' '' @ pp]\<rparr>))
            \<lparr>files := (files s)(lp \<mapsto> Records
                 (map (\<lambda>record. record\<lparr>meta := Some (toISOString e (product_date (product l)))\<rparr>)
                    (outputRecords run)))\<rparr>)))"
  by (simp add: grib2json_def extractLayer_then_def processLayer_def log_info_def Let_def)

section \<open>Publish: the conditional upload\<close>

text \<open>
  Claim C1, as amended. For a push of a Layer whose local file exists, the upload request
  is made if and only if the remote object has no stored reference time (none, or an empty
  one), or the stored reference time is a date strictly before the Layer's Cycle time, or
  the Layer's is-current flag is set; otherwise only the metadata fetch is made. So with
  the flag set the upload happens whatever the remote reference time, and with the flag
  unset and a stored reference time at or after the Cycle time it does not. The upload
  itself is the modelled \<open>uploadFile\<close>.
\<close>

theorem push_uploads_iff_newer:
  assumes "existsSync s (layer_path e (LAYER_HOME e) l)"
  shows "let key = layer_path e (S3_LAYER_HOME e) l;
             stored = (case remote s key of None \<Rightarrow> None
                       | Some obj \<Rightarrow> map_of (Metadata obj) ''reference-time'');
             upload = Put key [(''reference-time'', toISOString e (date (cycle (product l))))]
                        (cacheControlFor e l);
             s' = snd (pushLayer e (Some l) put s);
             newer = (stored = None \<or> stored = Some []
                      \<or> (\<exists>x t. stored = Some x \<and> newDate e x = Some t
                                \<and> t < date (cycle (product l)))
                      \<or> isCurrent l)
         in (s3log s' = s3log s @ [Head key, upload] \<longleftrightarrow> newer)
            \<and> (s3log s' = s3log s @ [Head key] \<longleftrightarrow> \<not> newer)"
  unfolding Let_def pushLayer_s3log [OF assms] isNewerThan_iff [unfolded Let_def]
  by simp

text \<open>
  On the concrete environment: a stored reference time of 00:00 against a Cycle of 06:00
  is uploaded over; an equal one is not; with the flag set, a stored 12:00 is uploaded over.
\<close>

theorem push_uploads_iff_newer_witness:
  "existsSync (state_pub 21600000 0) (layer_path env0 (LAYER_HOME env0) layer0)
   \<and> s3log (snd (pushLayer env0 (Some layer0) (Inr (PutResult ''etag'')) (state_pub 21600000 0)))
       = [Head ''data/1970-01-01T06:00:00.000Z-wind-isobaric-10hPa.json'',
          Put ''data/1970-01-01T06:00:00.000Z-wind-isobaric-10hPa.json''
            [(''reference-time'', ''1970-01-01T06:00:00.000Z'')] ''max-age=31536000'']
   \<and> s3log (snd (pushLayer env0 (Some layer0) (Inr (PutResult ''etag''))
                   (state_pub 21600000 21600000)))
       = [Head ''data/1970-01-01T06:00:00.000Z-wind-isobaric-10hPa.json'']
   \<and> s3log (snd (pushLayer env0 (Some (layer0\<lparr>isCurrent := True\<rparr>)) (Inr (PutResult ''etag''))
                   (state_pub 21600000 43200000
                      \<lparr>files := [''layer/current/current-wind-isobaric-10hPa.json''
                                   \<mapsto> Records [rec0 21600000]]\<rparr>)))
       = [Head ''data/current/current-wind-isobaric-10hPa.json'',
          Put ''data/current/current-wind-isobaric-10hPa.json''
            [(''reference-time'', ''1970-01-01T06:00:00.000Z'')] ''no-cache'']"
  using push_uploads_iff_newer
          [of "state_pub 21600000 0" env0 layer0 "Inr (PutResult ''etag'')"]
        push_uploads_iff_newer
          [of "state_pub 21600000 21600000" env0 layer0 "Inr (PutResult ''etag'')"]
        push_uploads_iff_newer
          [of "state_pub 21600000 43200000
                 \<lparr>files := [''layer/current/current-wind-isobaric-10hPa.json''
                              \<mapsto> Records [rec0 21600000]]\<rparr>" env0
              "layer0\<lparr>isCurrent := True\<rparr>" "Inr (PutResult ''etag'')"]
  by (simp add: fixture_defs Let_def)

text \<open>
  Claim C1 as stated, for every push, fails: the Layer's is-current flag is set and the
  remote store holds nothing for it, but its local file is missing; the push resolves with
  \<^verbatim>\<open>null\<close> and no request is made to the store.
\<close>

theorem push_flag_set_no_file_counterexample:
  "isCurrent (layer0\<lparr>isCurrent := True\<rparr>)
   \<and> remote state0 (layer_path env0 (S3_LAYER_HOME env0) (layer0\<lparr>isCurrent := True\<rparr>)) = None
   \<and> fst (pushLayer env0 (Some (layer0\<lparr>isCurrent := True\<rparr>)) (Inr (PutResult ''etag'')) state0)
       = Inr VNull
   \<and> s3log (snd (pushLayer env0 (Some (layer0\<lparr>isCurrent := True\<rparr>)) (Inr (PutResult ''etag''))
                   state0)) = []"
  by (simp add: pushLayer_def log_info_def fixture_defs)

text \<open>
  Claim C6, as amended. A push of \<^verbatim>\<open>null\<close>, or of a Layer whose local file is
  missing, resolves with \<^verbatim>\<open>null\<close>. A push of a Layer whose file exists resolves with
  \<^verbatim>\<open>true\<close> once the conditional upload has resolved, whether or not it uploaded.
\<close>

theorem push_resolves_true_or_null:
  "fst (pushLayer e None put s) = Inr VNull
   \<and> (\<not> existsSync s (layer_path e (LAYER_HOME e) l) \<longrightarrow>
        fst (pushLayer e (Some l) put s) = Inr VNull)
   \<and> (existsSync s (layer_path e (LAYER_HOME e) l) \<longrightarrow>
        fst (pushLayer e (Some l) (Inr res) s) = Inr VTrue)"
  by (simp add: pushLayer_None pushLayer_missing pushLayer_value)

theorem push_resolves_true_or_null_witness:
  "\<not> existsSync state0 (layer_path env0 (LAYER_HOME env0) layer0)
   \<and> fst (pushLayer env0 (Some layer0) (Inr (PutResult ''etag'')) state0) = Inr VNull
   \<and> existsSync (state_pub 21600000 0) (layer_path env0 (LAYER_HOME env0) layer0)
   \<and> fst (pushLayer env0 (Some layer0) (Inr (PutResult ''etag'')) (state_pub 21600000 0))
       = Inr VTrue"
  using push_resolves_true_or_null [of env0 "Inr (PutResult ''etag'')" state0 layer0 "PutResult ''etag''"]
        push_resolves_true_or_null
          [of env0 "Inr (PutResult ''etag'')" "state_pub 21600000 0" layer0 "PutResult ''etag''"]
  by (simp add: fixture_defs)

text \<open>
  Claim C6 as stated fails: here the upload is made and the store answers with a result,
  and the push resolves with \<^verbatim>\<open>true\<close>, not with that result.
\<close>

theorem push_upload_result_counterexample:
  "put_reqs (s3log (snd (pushLayer env0 (Some layer0) (Inr (PutResult ''etag''))
                          (state_pub 21600000 0))))
     = [Put ''data/1970-01-01T06:00:00.000Z-wind-isobaric-10hPa.json''
          [(''reference-time'', ''1970-01-01T06:00:00.000Z'')] ''max-age=31536000'']
   \<and> fst (pushLayer env0 (Some layer0) (Inr (PutResult ''etag'')) (state_pub 21600000 0))
       = Inr VTrue
   \<and> fst (pushLayer env0 (Some layer0) (Inr (PutResult ''etag'')) (state_pub 21600000 0))
       \<noteq> Inr (VResult (PutResult ''etag''))"
  by (simp add: pushLayer_def uploadFile_def headObject_def isNewerThan_def falsy_def
      date_lt_def newDate_of_def log_info_def fixture_defs Let_def)

section \<open>Fetch: the local file and the failures\<close>

text \<open>
  Claim C2. If the Product's local file exists, \<open>download\<close> resolves with the Product
  and leaves the server list, the requests issued and the files as they are: no server is
  acquired and no transfer is started. Hence, of two fetches of the same Product in a row,
  if the file exists after the first, the second resolves with the Product from the local
  file without a request, and both together issue at most one request.
\<close>

theorem fetch_skips_existing_file:
  "(existsSync s (product_path e (GRIB_HOME e) p) \<longrightarrow>
      fst (download e p out s) = Inr p
      \<and> servers (snd (download e p out s)) = servers s
      \<and> requests (snd (download e p out s)) = requests s
      \<and> files (snd (download e p out s)) = files s)
   \<and> (existsSync (snd (download e p out1 s)) (product_path e (GRIB_HOME e) p) \<longrightarrow>
      fst (download e p out2 (snd (download e p out1 s))) = Inr p
      \<and> requests (snd (download e p out2 (snd (download e p out1 s))))
          = requests (snd (download e p out1 s))
      \<and> servers (snd (download e p out2 (snd (download e p out1 s))))
          = servers (snd (download e p out1 s))
      \<and> length (requests (snd (download e p out2 (snd (download e p out1 s)))))
          \<le> length (requests s) + 1)"
  using download_requests_le [of e p out1 s]
  by (simp add: download_existing log_info_def)

text \<open>
  On the concrete environment: with the file on disk no request is made; starting without
  it, a first successful fetch puts it there and a second fetch adds no request.
\<close>

theorem fetch_skips_existing_file_witness:
  "existsSync (state0\<lparr>files := [''grib/1970-01-01T06:00:00.000Z-f000'' \<mapsto> Grib]\<rparr>)
      (product_path env0 (GRIB_HOME env0) product0)
   \<and> fst (download env0 product0 (DRejected ''unused'')
        (state0\<lparr>files := [''grib/1970-01-01T06:00:00.000Z-f000'' \<mapsto> Grib]\<rparr>)) = Inr product0
   \<and> requests (snd (download env0 product0 (DRejected ''unused'')
        (state0\<lparr>files := [''grib/1970-01-01T06:00:00.000Z-f000'' \<mapsto> Grib]\<rparr>))) = []
   \<and> existsSync
        (snd (download env0 product0
               (DResolved \<lparr>statusCode = 200, received = 1024, duration = 5\<rparr>) state0))
        (product_path env0 (GRIB_HOME env0) product0)
   \<and> requests
        (snd (download env0 product0 (DRejected ''unused'')
               (snd (download env0 product0
                      (DResolved \<lparr>statusCode = 200, received = 1024, duration = 5\<rparr>) state0))))
       = [''http://ncep.example/1970-01-01T06:00:00.000Z-f000'']"
  using fetch_skips_existing_file
    [of "state0\<lparr>files := [''grib/1970-01-01T06:00:00.000Z-f000'' \<mapsto> Grib]\<rparr>" env0 product0
        "DRejected ''unused''" "DResolved \<lparr>statusCode = 200, received = 1024, duration = 5\<rparr>"
        "DRejected ''unused''"]
  by (simp add: download_def download_then_def nextServer_def releaseServer_def log_info_def
      fixture_defs Let_def)




section \<open>Extract: empty output and the staleness check\<close>

text \<open>
  Claim C4. An extraction in which the decoder was invoked, exited with code 0 (so that
  its output is read) and produced no records resolves with \<^verbatim>\<open>null\<close> and leaves the
  files as they are. A push of \<^verbatim>\<open>null\<close> resolves with \<^verbatim>\<open>null\<close> and changes
  nothing; a push of a Layer whose local file is missing resolves with \<^verbatim>\<open>null\<close>
  and makes no request to the remote store. Neither is an error.
\<close>

theorem empty_output_is_no_layer:
  "(decoded (snd (extractLayer e l run s)) \<noteq> decoded s \<and> returnCode run = 0
      \<and> outputRecords run = [] \<longrightarrow>
      fst (extractLayer e l run s) = Inr None
      \<and> files (snd (extractLayer e l run s)) = files s)
   \<and> pushLayer e None put s = (Inr VNull, s)
   \<and> (\<not> existsSync s (layer_path e (LAYER_HOME e) l) \<longrightarrow>
        fst (pushLayer e (Some l) put s) = Inr VNull
        \<and> s3log (snd (pushLayer e (Some l) put s)) = s3log s
        \<and> remote (snd (pushLayer e (Some l) put s)) = remote s)"
proof -
  have "fst (extractLayer e l run s) = Inr None \<and> files (snd (extractLayer e l run s)) = files s"
    if inv: "decoded (snd (extractLayer e l run s)) \<noteq> decoded s"
      and rc: "returnCode run = 0" and out: "outputRecords run = []"
  proof -
    from extractLayer_cases [of e l run s] inv
    obtain s0 where s0: "files s0 = files s"
      and eq: "extractLayer e l run s
          = grib2json e l (product_path e (GRIB_HOME e) (product l))
              (layer_path e (LAYER_HOME e) l) run s0"
      by blast
    show ?thesis
      using grib2json_empty [OF rc out, of e l _ _ s0] s0 by (simp add: eq)
  qed
  then show ?thesis
    by (simp add: pushLayer_None pushLayer_missing log_info_def)
qed

theorem empty_output_is_no_layer_witness:
  "decoded (snd (extractLayer env0 layer0 (run0 [] 0) (state_ext 0 0))) \<noteq> decoded (state_ext 0 0)
   \<and> returnCode (run0 [] 0) = 0 \<and> outputRecords (run0 [] 0) = []
   \<and> fst (extractLayer env0 layer0 (run0 [] 0) (state_ext 0 0)) = Inr None
   \<and> files (snd (extractLayer env0 layer0 (run0 [] 0) (state_ext 0 0))) = files (state_ext 0 0)
   \<and> \<not> existsSync state0 (layer_path env0 (LAYER_HOME env0) layer0)
   \<and> s3log (snd (pushLayer env0 (Some layer0) (Inr (PutResult ''etag'')) state0)) = []"
  using empty_output_is_no_layer [of env0 layer0 "run0 [] 0" "state_ext 0 0"]
        empty_output_is_no_layer [of env0 layer0 "run0 [] 0" state0 "Inr (PutResult ''etag'')"]
  by (simp add: extractLayer_def grib2json_def extractLayer_then_def processLayer_def
      readJSONSync_def resolve_path_def date_ge_def log_info_def fixture_defs Let_def)

text \<open>
  Claim C3, as amended. For a Layer whose source product file exists and whose target
  path is relative and names a file with a first record carrying a valid reference time
  (the program reads the file back under the name \<^verbatim>\<open>"./" + layerPath\<close>, which is
  the file it has tested only when the path is relative): if that time is at or
  after the Product's Cycle time, the decoder is not invoked, no file is written and the
  extraction resolves with the Layer; if it is strictly before, the decoder is invoked,
  and the layer file is rewritten with the decoder's records exactly when the decoder
  exits with code 0 and yields at least one record (a non-zero exit code rejects, no
  records resolve with \<^verbatim>\<open>null\<close>, and both leave the file as it was).
\<close>

theorem extract_staleness_check:
  assumes "existsSync s (product_path e (GRIB_HOME e) (product l))"
    and "files s (layer_path e (LAYER_HOME e) l) = Some (Records (r # rs))"
    and "newDate e (refTime (header r)) = Some t"
    and "\<not> isAbsolute (layer_path e (LAYER_HOME e) l)"
  shows "(t \<ge> date (cycle (product l)) \<longrightarrow>
            fst (extractLayer e l run s) = Inr (Some l)
            \<and> decoded (snd (extractLayer e l run s)) = decoded s
            \<and> files (snd (extractLayer e l run s)) = files s)
         \<and> (t < date (cycle (product l)) \<longrightarrow>
            decoded (snd (extractLayer e l run s))
              = decoded s @ [filter_args (recipe l) @ '' '' @ GRIB2JSON_FLAGS @ '' -o ''
                              @ tempPath run @ '' ''
                              @ product_path e (GRIB_HOME e) (product l)]
            \<and> (returnCode run = 0 \<and> outputRecords run \<noteq> [] \<longrightarrow>
                 fst (extractLayer e l run s) = Inr (Some l)
                 \<and> files (snd (extractLayer e l run s))
                     = (files s)(layer_path e (LAYER_HOME e) l \<mapsto> Records
                         (map (\<lambda>record. record\<lparr>meta :=
                                  Some (toISOString e (product_date (product l)))\<rparr>)
                            (outputRecords run))))
            \<and> (returnCode run \<noteq> 0 \<longrightarrow>
                 fst (extractLayer e l run s) = Inl (DecoderFailed (returnCode run))
                 \<and> files (snd (extractLayer e l run s)) = files s)
            \<and> (returnCode run = 0 \<and> outputRecords run = [] \<longrightarrow>
                 fst (extractLayer e l run s) = Inr None
                 \<and> files (snd (extractLayer e l run s)) = files s))"
proof (cases "t \<ge> date (cycle (product l))")
  case True
  then show ?thesis
    by (simp add: extractLayer_skip [OF assms True] log_info_def)
next
  case False
  then have lt: "t < date (cycle (product l))" by simp
  show ?thesis
    using lt by (simp add: extractLayer_obsolete [OF assms lt] grib2json_result log_info_def)
qed

theorem extract_staleness_check_witness:
  "existsSync (state_ext 0 0) (product_path env0 (GRIB_HOME env0) (product layer0))
   \<and> files (state_ext 0 0) (layer_path env0 (LAYER_HOME env0) layer0) = Some (Records [rec0 0])
   \<and> newDate env0 (refTime (header (rec0 0))) = Some 0
   \<and> \<not> isAbsolute (layer_path env0 (LAYER_HOME env0) layer0)
   \<and> 0 < date (cycle (product layer0))
   \<and> returnCode (run0 [rec0 21600000] 0) = 0 \<and> outputRecords (run0 [rec0 21600000] 0) \<noteq> []
   \<and> fst (extractLayer env0 layer0 (run0 [rec0 21600000] 0) (state_ext 0 0)) = Inr (Some layer0)
   \<and> files (snd (extractLayer env0 layer0 (run0 [rec0 21600000] 0) (state_ext 0 0)))
        (layer_path env0 (LAYER_HOME env0) layer0)
       = Some (Records [\<lparr>header = \<lparr>refTime = ''1970-01-01T06:00:00.000Z'', forecastTime = 0\<rparr>,
                         meta = Some ''1970-01-01T06:00:00.000Z''\<rparr>])
   \<and> files (state_ext 21600000 0) (layer_path env0 (LAYER_HOME env0) layer0)
       = Some (Records [rec0 21600000])
   \<and> newDate env0 (refTime (header (rec0 21600000))) = Some 21600000
   \<and> 21600000 \<ge> date (cycle (product layer0))
   \<and> fst (extractLayer env0 layer0 (run0 [rec0 21600000] 0) (state_ext 21600000 0))
       = Inr (Some layer0)
   \<and> decoded (snd (extractLayer env0 layer0 (run0 [rec0 21600000] 0) (state_ext 21600000 0))) = []"
  using extract_staleness_check
          [of "state_ext 0 0" env0 layer0 "rec0 0" "[]" 0 "run0 [rec0 21600000] 0"]
        extract_staleness_check
          [of "state_ext 21600000 0" env0 layer0 "rec0 21600000" "[]" 21600000
              "run0 [rec0 21600000] 0"]
  by (simp add: fixture_defs)

text \<open>
  Claim C3 as stated fails: the existing layer is older than the Cycle, the decoder is
  invoked and exits with code 0, but yields no records; the extraction resolves with
  \<^verbatim>\<open>null\<close> and the layer file still holds the old record.
\<close>

theorem extract_older_not_rewritten_counterexample:
  "files (state_ext 0 0) (layer_path env0 (LAYER_HOME env0) layer0) = Some (Records [rec0 0])
   \<and> newDate env0 (refTime (header (rec0 0))) = Some 0
   \<and> 0 < date (cycle (product layer0))
   \<and> decoded (snd (extractLayer env0 layer0 (run0 [] 0) (state_ext 0 0)))
       = [''--fc 2 --fp wind --fs 100 --fv 1000 -c -d -n -o /tmp/t1.json grib/1970-01-01T06:00:00.000Z-f000'']
   \<and> fst (extractLayer env0 layer0 (run0 [] 0) (state_ext 0 0)) = Inr None
   \<and> files (snd (extractLayer env0 layer0 (run0 [] 0) (state_ext 0 0)))
        (layer_path env0 (LAYER_HOME env0) layer0) = Some (Records [rec0 0])"
  by (simp add: extractLayer_def grib2json_def extractLayer_then_def processLayer_def
      readJSONSync_def resolve_path_def date_ge_def log_info_def GRIB2JSON_FLAGS_def
      fixture_defs Let_def)

text \<open>
  Two more inputs on which an older layer file is not rewritten: the source product file
  is missing (the decoder is not invoked at all), and the decoder exits with code 1.
\<close>

lemma extract_missing_product_example:
  "files (state_pub 0 0) (layer_path env0 (LAYER_HOME env0) layer0) = Some (Records [rec0 0])
   \<and> extractLayer env0 layer0 (run0 [rec0 21600000] 0) (state_pub 0 0)
       = (Inr None, log_info (ProductNotFound ''grib/1970-01-01T06:00:00.000Z-f000'') (state_pub 0 0))"
  by (simp add: extractLayer_def fixture_defs Let_def)

lemma extract_decoder_failure_example:
  "fst (extractLayer env0 layer0 (run0 [rec0 21600000] 1) (state_ext 0 0)) = Inl (DecoderFailed 1)
   \<and> files (snd (extractLayer env0 layer0 (run0 [rec0 21600000] 1) (state_ext 0 0)))
        (layer_path env0 (LAYER_HOME env0) layer0) = Some (Records [rec0 0])"
  by (simp add: extractLayer_def grib2json_def extractLayer_then_def processLayer_def
      readJSONSync_def resolve_path_def date_ge_def log_info_def fixture_defs Let_def)

text \<open>
  Under an absolute layer root the name \<^verbatim>\<open>"./" + layerPath\<close> is not the file that was
  tested: the layer file exists and is current, and the extraction throws.
\<close>

lemma extract_absolute_root_example:
  "existsSync (state_abs 21600000) (layer_path env_abs (LAYER_HOME env_abs) layer0)
   \<and> isAbsolute (layer_path env_abs (LAYER_HOME env_abs) layer0)
   \<and> extractLayer env_abs layer0 (run0 [rec0 21600000] 0) (state_abs 21600000)
       = (Inl (NoSuchFile ''.//srv/layer/1970-01-01T06:00:00.000Z-wind-isobaric-10hPa.json''),
          state_abs 21600000)"
  by (simp add: extractLayer_def readJSONSync_def resolve_path_def env_abs_def state_abs_def
      fixture_defs Let_def)

section \<open>Facts about the runs\<close>

lemma grows_refl: "grows s s"
  by (simp add: grows_def)

lemma grows_trans: "grows s s1 \<Longrightarrow> grows s1 s2 \<Longrightarrow> grows s s2"
  by (auto simp: grows_def)

lemma grows_log: "grows s (log_info m s)"
  by (simp add: grows_def log_info_def existsSync_def)

lemma download_step_grows: "download_step e orc t s = (t', s') \<Longrightarrow> grows s s'"
  by (cases t)
     (auto simp: download_step_def download_then_def nextServer_def releaseServer_def
        log_info_def grows_def existsSync_def Let_def
        split: if_splits prod.splits download_outcome.splits)

lemma download_step_for:
  "dtask_for p t \<Longrightarrow> download_step e orc t s = (t', s') \<Longrightarrow> dtask_for p t'"
  by (cases t)
     (auto simp: download_step_def download_then_def Let_def
        split: if_splits prod.splits download_outcome.splits sum.splits)

lemma extract_step_grows: "extract_step e orc t s = (t', s') \<Longrightarrow> grows s s'"
  by (cases t)
     (auto simp: extract_step_def extractLayer_then_def processLayer_def
        log_info_def grows_def existsSync_def Let_def
        split: if_splits prod.splits sum.splits list.splits option.splits)

lemma etask_for_grows: "etask_for e s l t \<Longrightarrow> grows s s' \<Longrightarrow> etask_for e s' l t"
  by (induction e s l t rule: etask_for.induct) (auto simp: grows_def)

lemma extract_step_for:
  assumes "etask_for e s l t" and "extract_step e orc t s = (t', s')"
  shows "etask_for e s' l t'"
  using assms
  by (cases t)
     (auto simp: extract_step_def extractLayer_then_def processLayer_def
        log_info_def existsSync_def Let_def
        split: if_splits prod.splits sum.splits list.splits option.splits)

lemma push_step_grows: "push_step e orc t s = (t', s') \<Longrightarrow> grows s s'"
  by (cases t)
     (auto simp: push_step_def log_info_def grows_def existsSync_def Let_def
        split: if_splits prod.splits sum.splits option.splits)

lemma ptask_for_grows: "ptask_for e s l t \<Longrightarrow> grows s s' \<Longrightarrow> ptask_for e s' l t"
  by (cases t) (auto simp: grows_def split: option.splits)

lemma push_step_for:
  assumes "ptask_for e s l t"
    and "\<And>k. l = Some k \<Longrightarrow> existsSync s (layer_path e (LAYER_HOME e) k)"
    and "push_step e orc t s = (t', s')"
  shows "ptask_for e s' l t'"
  using assms
  by (cases t)
     (auto simp: push_step_def log_info_def Let_def
        split: if_splits prod.splits sum.splits option.splits)


lemma downloads_resolved:
  "list_all2 dtask_for ps ts \<Longrightarrow> list_all dsettled ts \<Longrightarrow>
   list_all (\<lambda>t. drejection t = None) ts \<Longrightarrow> downloads ts = ps"
proof (induction ps ts rule: list_all2_induct)
  case Nil
  then show ?case by simp
next
  case (Cons p ps t ts)
  then show ?case
    by (cases t rule: drejection.cases) auto
qed

lemma esettled_resolved:
  "list_all esettled ts \<Longrightarrow> list_all (\<lambda>t. erejection t = None) ts \<Longrightarrow> list_all eresolved ts"
proof (induction ts)
  case Nil
  then show ?case by simp
next
  case (Cons t ts)
  then show ?case
    by (cases t rule: erejection.cases) auto
qed

lemma extracted_resolved:
  "list_all eresolved ts \<Longrightarrow>
   length (extracted ts) = length ts
   \<and> (\<forall>j<length ts. ts ! j = ESettled (Inr (extracted ts ! j)))"
proof (induction ts)
  case Nil
  then show ?case by simp
next
  case (Cons t ts)
  then show ?case
    by (cases t rule: eresolved.cases) (auto simp: nth_Cons split: nat.splits)
qed

lemma etasks_start: "list_all2 (etask_for e s) ls (map EStart ls)"
  by (induction ls) auto

lemma ptasks_start: "list_all2 (ptask_for e s) ls (map PStart ls)"
  by (induction ls) auto

lemma extractLayers_concat:
  "concat (map extractLayers ps)
   = map EStart (concat (map (\<lambda>p. map (\<lambda>r. gfs_layer r p False) LAYER_RECIPES) ps))"
  by (induction ps) (simp_all add: extractLayers_def)

lemma extractLayers_layers:
  "concat (map extractLayers (processCycle_products e c)) = map EStart (processCycle_layers e c)"
  by (simp add: extractLayers_concat processCycle_layers_def)

lemma etasks_grow:
  "list_all2 (etask_for e s) ls ts \<Longrightarrow> grows s s' \<Longrightarrow> list_all2 (etask_for e s') ls ts"
  by (erule list_all2_mono) (rule etask_for_grows)

lemma ptasks_grow:
  "list_all2 (ptask_for e s) ls ts \<Longrightarrow> grows s s' \<Longrightarrow> list_all2 (ptask_for e s') ls ts"
  by (erule list_all2_mono) (rule ptask_for_grows)

lemma pushing_inv_grows: "pushing_inv e b s \<Longrightarrow> grows s s' \<Longrightarrow> pushing_inv e b s'"
  by (auto simp: pushing_inv_def intro: etasks_grow ptasks_grow)

lemma batch_inv_grows: "batch_inv e b s \<Longrightarrow> grows s s' \<Longrightarrow> batch_inv e b s'"
  by (auto simp: batch_inv_def split: phase.splits intro: etasks_grow pushing_inv_grows)

lemma list_all_update: "list_all P xs \<Longrightarrow> P x \<Longrightarrow> list_all P (xs[j := x])"
  by (auto simp: list_all_iff dest: set_update_subset_insert [THEN subsetD])

lemma list_all2_update_right:
  "list_all2 P xs ys \<Longrightarrow> j < length ys \<Longrightarrow> P (xs ! j) y \<Longrightarrow> list_all2 P xs (ys[j := y])"
  using list_all2_update_cong [of P xs ys "xs ! j" y j] by (simp add: list_all2_lengthD)

lemma step_downloading:
  assumes inv: "batch_inv e b s" and ph: "phase b = Downloading"
    and st: "step_batch e orc j b s = (b', s')"
  shows "batch_inv e b' s' \<and> grows s s' \<and> bcycle b' = bcycle b"
proof -
  from inv ph have tf: "list_all2 dtask_for (processCycle_products e (bcycle b)) (dtasks b)"
    and rej: "failure b = None \<Longrightarrow> list_all (\<lambda>t. drejection t = None) (dtasks b)"
    by (simp_all add: batch_inv_def)
  show ?thesis
  proof (cases "list_all dsettled (dtasks b)")
    case True
    show ?thesis
    proof (cases "failure b")
      case None
      from downloads_resolved [OF tf True rej [OF None]]
      have "downloads (dtasks b) = processCycle_products e (bcycle b)" .
      with st ph True None tf show ?thesis
        by (auto simp: step_batch_def batch_inv_def grows_refl extractLayers_layers etasks_start
            list_all_iff)
    next
      case (Some err)
      with st ph True tf show ?thesis
        by (auto simp: step_batch_def batch_inv_def grows_refl)
    qed
  next
    case False
    show ?thesis
    proof (cases "j < length (dtasks b)")
      case True
      obtain t where step: "download_step e orc (dtasks b ! j) s = (t, s')"
        and b': "b' = note_failure (drejection t) (b\<lparr>dtasks := (dtasks b)[j := t]\<rparr>)"
        using st ph False True by (auto simp: step_batch_def split: prod.splits)
      from tf True have "dtask_for (processCycle_products e (bcycle b) ! j) (dtasks b ! j)"
        by (simp add: list_all2_conv_all_nth)
      from download_step_for [OF this step] tf True
      have tf': "list_all2 dtask_for (processCycle_products e (bcycle b)) ((dtasks b)[j := t])"
        by (simp add: list_all2_update_right)
      have "failure b' = None \<Longrightarrow> list_all (\<lambda>t. drejection t = None) ((dtasks b)[j := t])"
        using rej by (auto simp: b' note_failure_def list_all_update split: option.splits)
      with tf' ph show ?thesis
        using download_step_grows [OF step]
        by (auto simp: b' batch_inv_def note_failure_def split: option.splits)
    next
      case False
      with st ph \<open>\<not> list_all dsettled (dtasks b)\<close> inv show ?thesis
        by (auto simp: step_batch_def grows_refl)
    qed
  qed
qed

lemma step_extracting:
  assumes inv: "batch_inv e b s" and ph: "phase b = Extracting"
    and st: "step_batch e orc j b s = (b', s')"
  shows "batch_inv e b' s' \<and> grows s s' \<and> bcycle b' = bcycle b"
proof -
  let ?L = "processCycle_layers e (bcycle b)"
  from inv ph have tf: "list_all2 (etask_for e s) ?L (etasks b)"
    and rej: "failure b = None \<Longrightarrow> list_all (\<lambda>t. erejection t = None) (etasks b)"
    and dt: "list_all2 dtask_for (processCycle_products e (bcycle b)) (dtasks b)"
    by (simp_all add: batch_inv_def)
  show ?thesis
  proof (cases "list_all esettled (etasks b)")
    case True
    show ?thesis
    proof (cases "failure b")
      case None
      from esettled_resolved [OF True rej [OF None]] have "list_all eresolved (etasks b)" .
      with st ph True None tf dt show ?thesis
        by (auto simp: step_batch_def batch_inv_def pushing_inv_def pushLayers_def grows_refl
            ptasks_start)
    next
      case (Some err)
      with st ph True dt show ?thesis
        by (auto simp: step_batch_def batch_inv_def grows_refl)
    qed
  next
    case False
    show ?thesis
    proof (cases "j < length (etasks b)")
      case True
      obtain t where step: "extract_step e orc (etasks b ! j) s = (t, s')"
        and b': "b' = note_failure (erejection t) (b\<lparr>etasks := (etasks b)[j := t]\<rparr>)"
        using st ph False True by (auto simp: step_batch_def split: prod.splits)
      have g: "grows s s'" by (rule extract_step_grows [OF step])
      from tf True have "etask_for e s (?L ! j) (etasks b ! j)"
        by (simp add: list_all2_conv_all_nth)
      from extract_step_for [OF this step] etasks_grow [OF tf g] True
      have tf': "list_all2 (etask_for e s') ?L ((etasks b)[j := t])"
        by (simp add: list_all2_update_right)
      have "failure b' = None \<Longrightarrow> list_all (\<lambda>t. erejection t = None) ((etasks b)[j := t])"
        using rej by (auto simp: b' note_failure_def list_all_update split: option.splits)
      with tf' ph g dt show ?thesis
        by (auto simp: b' batch_inv_def note_failure_def split: option.splits)
    next
      case False
      with st ph \<open>\<not> list_all esettled (etasks b)\<close> inv show ?thesis
        by (auto simp: step_batch_def grows_refl)
    qed
  qed
qed

lemma step_pushing:
  assumes inv: "batch_inv e b s" and ph: "phase b = Pushing"
    and st: "step_batch e orc j b s = (b', s')"
  shows "batch_inv e b' s' \<and> grows s s' \<and> bcycle b' = bcycle b"
proof -
  let ?L = "processCycle_layers e (bcycle b)"
  from inv ph have pinv: "pushing_inv e b s"
    and dt: "list_all2 dtask_for (processCycle_products e (bcycle b)) (dtasks b)"
    by (simp_all add: batch_inv_def)
  then have tf: "list_all2 (etask_for e s) ?L (etasks b)"
    and res: "list_all eresolved (etasks b)"
    and pfor: "list_all2 (ptask_for e s) (extracted (etasks b)) (ptasks b)"
    by (simp_all add: pushing_inv_def)
  show ?thesis
  proof (cases "list_all psettled (ptasks b)")
    case True
    show ?thesis
    proof (cases "failure b")
      case None
      with st ph True have b': "b' = b\<lparr>phase := Finished (Inr ())\<rparr>"
        and s': "s' = log_info BatchComplete s"
        by (auto simp: step_batch_def)
      have g: "grows s s'" unfolding s' by (rule grows_log)
      from pushing_inv_grows [OF pinv g] True g dt show ?thesis
        by (simp add: b' batch_inv_def pushing_inv_def)
    next
      case (Some err)
      with st ph True dt show ?thesis
        by (auto simp: step_batch_def batch_inv_def grows_refl)
    qed
  next
    case False
    show ?thesis
    proof (cases "j < length (ptasks b)")
      case True
      obtain t where step: "push_step e orc (ptasks b ! j) s = (t, s')"
        and b': "b' = note_failure (prejection t) (b\<lparr>ptasks := (ptasks b)[j := t]\<rparr>)"
        using st ph False True by (auto simp: step_batch_def split: prod.splits)
      have g: "grows s s'" by (rule push_step_grows [OF step])
      from extracted_resolved [OF res] pfor True
      have len: "length (extracted (etasks b)) = length (etasks b)"
        and jl: "j < length (etasks b)"
        and ej: "etasks b ! j = ESettled (Inr (extracted (etasks b) ! j))"
        by (auto dest: list_all2_lengthD)
      from pfor True have pj: "ptask_for e s (extracted (etasks b) ! j) (ptasks b ! j)"
        by (simp add: list_all2_conv_all_nth)
      have ex: "existsSync s (layer_path e (LAYER_HOME e) k)"
        if "extracted (etasks b) ! j = Some k" for k
      proof -
        from tf jl have "etask_for e s (?L ! j) (etasks b ! j)"
          by (simp add: list_all2_conv_all_nth)
        with ej that show ?thesis by simp
      qed
      from push_step_for [OF pj ex step] ptasks_grow [OF pfor g] True
      have "list_all2 (ptask_for e s') (extracted (etasks b)) ((ptasks b)[j := t])"
        by (simp add: list_all2_update_right)
      with etasks_grow [OF tf g] res ph g dt show ?thesis
        by (auto simp: b' batch_inv_def pushing_inv_def note_failure_def split: option.splits)
    next
      case False
      with st ph \<open>\<not> list_all psettled (ptasks b)\<close> inv show ?thesis
        by (auto simp: step_batch_def grows_refl)
    qed
  qed
qed

lemma step_batch_inv:
  assumes "batch_inv e b s" and "step_batch e orc j b s = (b', s')"
  shows "batch_inv e b' s' \<and> grows s s' \<and> bcycle b' = bcycle b"
proof (cases "phase b")
  case Downloading
  then show ?thesis by (rule step_downloading [OF assms(1) _ assms(2)])
next
  case Extracting
  then show ?thesis by (rule step_extracting [OF assms(1) _ assms(2)])
next
  case Pushing
  then show ?thesis by (rule step_pushing [OF assms(1) _ assms(2)])
next
  case (Finished res)
  with assms show ?thesis
    by (auto simp: step_batch_def grows_refl)
qed

lemma run_inv:
  assumes "\<forall>i<length bs. batch_inv e (bs ! i) s" and "run_chains e orc sched (bs, s) = (bs', s')"
  shows "(\<forall>i<length bs'. batch_inv e (bs' ! i) s') \<and> map bcycle bs' = map bcycle bs \<and> grows s s'"
  using assms
proof (induction sched arbitrary: bs s)
  case Nil
  then show ?case by (simp add: grows_refl)
next
  case (Cons a sched)
  obtain i j where a: "a = (i, j)" by (cases a)
  show ?case
  proof (cases "i < length bs")
    case True
    obtain b s1 where step: "step_batch e orc j (bs ! i) s = (b, s1)"
      by (cases "step_batch e orc j (bs ! i) s")
    from Cons.prems(1) True have "batch_inv e (bs ! i) s" by simp
    from step_batch_inv [OF this step]
    have bi: "batch_inv e b s1" and g: "grows s s1" and c: "bcycle b = bcycle (bs ! i)"
      by simp_all
    have inv1: "\<forall>k<length (bs[i := b]). batch_inv e (bs[i := b] ! k) s1"
    proof (intro allI impI)
      fix k assume k: "k < length (bs[i := b])"
      with Cons.prems(1) have "batch_inv e (bs ! k) s" by simp
      then have "batch_inv e (bs ! k) s1" using g by (rule batch_inv_grows)
      with bi k True show "batch_inv e (bs[i := b] ! k) s1"
        by (simp add: nth_list_update)
    qed
    from Cons.prems(2) True step have "run_chains e orc sched (bs[i := b], s1) = (bs', s')"
      by (simp add: a)
    from Cons.IH [OF inv1 this] g c True show ?thesis
      by (auto simp: map_update list_update_same_conv intro: grows_trans)
  next
    case False
    with Cons.prems(2) have "run_chains e orc sched (bs, s) = (bs', s')"
      by (simp add: a)
    from Cons.IH [OF Cons.prems(1) this] show ?thesis .
  qed
qed


lemma upt_0_Suc: "[0..<Suc m] = 0 # map Suc [0..<m]"
  by (simp only: map_Suc_upt upt_conv_Cons [OF zero_less_Suc])

lemma previous_funpow: "date ((cycle_previous ^^ k) c) = date c - int k * CYCLE_PERIOD"
  by (induction k) (simp_all add: cycle_previous_def algebra_simps)

lemma loop_chains:
  "\<exists>n. (\<forall>k<n. date stop \<le> date ((cycle_previous ^^ k) c))
     \<and> date ((cycle_previous ^^ n) c) < date stop
     \<and> processCycles_loop e c stop result s =
         (result @ map (\<lambda>k. \<lparr>bcycle = (cycle_previous ^^ k) c, phase = Downloading,
                              dtasks = map DStart
                                         (processCycle_products e ((cycle_previous ^^ k) c)),
                              etasks = [], ptasks = [], failure = None\<rparr>)
                    [0..<n],
          s\<lparr>logged := logged s @ map (\<lambda>k. CycleStart ((cycle_previous ^^ k) c)) [0..<n]\<rparr>)"
proof (induction e c stop result s rule: processCycles_loop.induct)
  case (1 e c stop result s)
  show ?case
  proof (cases "date stop \<le> date c")
    case True
    from 1 [OF True, unfolded processCycle_def Let_def, OF refl]
    obtain n where lo: "\<forall>k<n. date stop \<le> date ((cycle_previous ^^ k) (cycle_previous c))"
      and hi: "date ((cycle_previous ^^ n) (cycle_previous c)) < date stop"
      and eq: "processCycles_loop e (cycle_previous c) stop
                 (result @ [\<lparr>bcycle = c, phase = Downloading,
                              dtasks = map DStart (processCycle_products e c),
                              etasks = [], ptasks = [], failure = None\<rparr>])
                 (log_info (CycleStart c) s) =
               ((result @ [\<lparr>bcycle = c, phase = Downloading,
                              dtasks = map DStart (processCycle_products e c),
                              etasks = [], ptasks = [], failure = None\<rparr>])
                @ map (\<lambda>k. \<lparr>bcycle = (cycle_previous ^^ k) (cycle_previous c), phase = Downloading,
                              dtasks = map DStart
                                (processCycle_products e ((cycle_previous ^^ k) (cycle_previous c))),
                              etasks = [], ptasks = [], failure = None\<rparr>)
                    [0..<n],
                (log_info (CycleStart c) s)
                  \<lparr>logged := logged (log_info (CycleStart c) s)
                     @ map (\<lambda>k. CycleStart ((cycle_previous ^^ k) (cycle_previous c))) [0..<n]\<rparr>)"
      by blast
    have lo': "\<forall>k<Suc n. date stop \<le> date ((cycle_previous ^^ k) c)"
    proof (intro allI impI)
      fix k assume k: "k < Suc n"
      show "date stop \<le> date ((cycle_previous ^^ k) c)"
      proof (cases k)
        case 0
        with True show ?thesis by simp
      next
        case (Suc j)
        with k lo show ?thesis by (simp add: funpow_swap1)
      qed
    qed
    have hi': "date ((cycle_previous ^^ Suc n) c) < date stop"
      using hi by (simp add: funpow_swap1)
    have "processCycles_loop e c stop result s =
         (result @ map (\<lambda>k. \<lparr>bcycle = (cycle_previous ^^ k) c, phase = Downloading,
                              dtasks = map DStart
                                         (processCycle_products e ((cycle_previous ^^ k) c)),
                              etasks = [], ptasks = [], failure = None\<rparr>)
                    [0..<Suc n],
          s\<lparr>logged := logged s @ map (\<lambda>k. CycleStart ((cycle_previous ^^ k) c)) [0..<Suc n]\<rparr>)"
      apply (subst processCycles_loop.simps)
      apply (simp only: True if_True processCycle_def Let_def prod.case eq upt_0_Suc)
      apply (simp add: log_info_def funpow_swap1 comp_def)
      done
    with lo' hi' show ?thesis by blast
  next
    case False
    then have "processCycles_loop e c stop result s = (result, s)"
      by (subst processCycles_loop.simps) simp
    with False show ?thesis
      by (intro exI [of _ 0]) simp
  qed
qed

lemma processCycle_products_dtasks:
  "map DStart (processCycle_products e c)
   = concat (map (\<lambda>t. map (\<lambda>h. DStart (gfs_product t c h)) (forecasts e)) PRODUCT_TYPES)"
  by (simp add: processCycle_products_def map_concat comp_def)

lemma dtasks_start: "list_all2 dtask_for ps (map DStart ps)"
  by (induction ps) auto

lemma chain_inv:
  "batch_inv e \<lparr>bcycle = c, phase = Downloading, dtasks = map DStart (processCycle_products e c),
                etasks = [], ptasks = [], failure = None\<rparr> s"
  by (simp add: batch_inv_def dtasks_start list_all_iff)

lemma processCycles_chains:
  "\<exists>n. (\<forall>k<n. date (gfs_cycle e until_date) \<le> date ((cycle_previous ^^ k) (gfs_cycle e from_date)))
     \<and> date ((cycle_previous ^^ n) (gfs_cycle e from_date)) < date (gfs_cycle e until_date)
     \<and> processCycles e from_date until_date s =
         (map (\<lambda>k. \<lparr>bcycle = (cycle_previous ^^ k) (gfs_cycle e from_date), phase = Downloading,
                     dtasks = map DStart
                       (processCycle_products e ((cycle_previous ^^ k) (gfs_cycle e from_date))),
                     etasks = [], ptasks = [], failure = None\<rparr>)
            [0..<n],
          s\<lparr>logged := logged s
               @ map (\<lambda>k. CycleStart ((cycle_previous ^^ k) (gfs_cycle e from_date))) [0..<n]\<rparr>)"
  using loop_chains [of "gfs_cycle e until_date" "gfs_cycle e from_date" e "[]" s]
  by (simp add: processCycles_def Let_def)

lemma processCycles_inv:
  assumes "processCycles e from_date until_date s = (bs, s1)"
  shows "\<forall>i<length bs. batch_inv e (bs ! i) s1"
proof -
  from processCycles_chains [of e until_date from_date s] assms
  obtain n where
    "bs = map (\<lambda>k. \<lparr>bcycle = (cycle_previous ^^ k) (gfs_cycle e from_date), phase = Downloading,
                     dtasks = map DStart
                       (processCycle_products e ((cycle_previous ^^ k) (gfs_cycle e from_date))),
                     etasks = [], ptasks = [], failure = None\<rparr>) [0..<n]"
    by auto
  then show ?thesis
    by (simp add: chain_inv)
qed

section \<open>Cycle scheduler: the walk over the window\<close>

text \<open>
  Claim C7. For every window, \<^verbatim>\<open>processCycles\<close> starts one chain for each Cycle
  obtained from the Cycle of \<open>from\<close> by stepping to the previous Cycle while the
  timestamp is at or after that of the Cycle of \<open>until\<close>, in that order, and no other:
  with \<open>n\<close> the number of chains, the first \<open>n\<close> Cycles of the walk are at or after the
  stop Cycle and the next one is before it. Each chain has been started by
  \<^verbatim>\<open>processCycle\<close>: the Cycle is logged, and the chain holds one download for each
  declared product type and forecast offset, not yet called. When \<open>from\<close> and \<open>until\<close>
  are the same instant there is exactly one chain. In every run of the chains, whatever
  the order of the turns, the chains stay those of these Cycles and the downloads of a
  chain stay those of its Cycle's products.
\<close>

theorem scheduler_walks_back:
  "(let c0 = gfs_cycle e from_date;
        stop = gfs_cycle e until_date;
        n = length (fst (processCycles e from_date until_date s))
    in (\<forall>k<n. date stop \<le> date ((cycle_previous ^^ k) c0))
       \<and> date ((cycle_previous ^^ n) c0) < date stop
       \<and> (from_date = until_date \<longrightarrow> n = 1)
       \<and> processCycles e from_date until_date s =
           (map (\<lambda>k. \<lparr>bcycle = (cycle_previous ^^ k) c0, phase = Downloading,
                       dtasks = concat (map (\<lambda>t. map (\<lambda>h. DStart (gfs_product t
                                                             ((cycle_previous ^^ k) c0) h))
                                                (forecasts e))
                                          PRODUCT_TYPES),
                       etasks = [], ptasks = [], failure = None\<rparr>)
              [0..<n],
            s\<lparr>logged := logged s @ map (\<lambda>k. CycleStart ((cycle_previous ^^ k) c0)) [0..<n]\<rparr>)
       \<and> (\<forall>orc sched bs' s'.
            run_chains e orc sched (processCycles e from_date until_date s) = (bs', s') \<longrightarrow>
            map bcycle bs' = map (\<lambda>k. (cycle_previous ^^ k) c0) [0..<n]
            \<and> (\<forall>i<n. list_all2 dtask_for
                        (concat (map (\<lambda>t. map (\<lambda>h. gfs_product t ((cycle_previous ^^ i) c0) h)
                                           (forecasts e))
                                   PRODUCT_TYPES))
                        (dtasks (bs' ! i)))))"
proof -
  let ?c0 = "gfs_cycle e from_date" and ?stop = "gfs_cycle e until_date"
  from processCycles_chains [of e until_date from_date s]
  obtain n where lo: "\<forall>k<n. date ?stop \<le> date ((cycle_previous ^^ k) ?c0)"
    and hi: "date ((cycle_previous ^^ n) ?c0) < date ?stop"
    and eq: "processCycles e from_date until_date s =
         (map (\<lambda>k. \<lparr>bcycle = (cycle_previous ^^ k) ?c0, phase = Downloading,
                     dtasks = map DStart (processCycle_products e ((cycle_previous ^^ k) ?c0)),
                     etasks = [], ptasks = [], failure = None\<rparr>)
            [0..<n],
          s\<lparr>logged := logged s @ map (\<lambda>k. CycleStart ((cycle_previous ^^ k) ?c0)) [0..<n]\<rparr>)"
    by blast
  have len: "length (fst (processCycles e from_date until_date s)) = n"
    by (simp add: eq)
  have one: "n = 1" if "from_date = until_date"
  proof -
    from that hi have "n \<noteq> 0" by (cases n) auto
    moreover have "n < 2"
    proof (rule ccontr)
      assume "\<not> n < 2"
      then have "1 < n" by simp
      with lo have "date ?stop \<le> date ((cycle_previous ^^ 1) ?c0)" by blast
      with that show False by (simp add: cycle_previous_def CYCLE_PERIOD_def)
    qed
    ultimately show ?thesis by simp
  qed
  have runs: "map bcycle bs' = map (\<lambda>k. (cycle_previous ^^ k) ?c0) [0..<n]
      \<and> (\<forall>i<n. list_all2 dtask_for (processCycle_products e ((cycle_previous ^^ i) ?c0))
                  (dtasks (bs' ! i)))"
    if r: "run_chains e orc sched (processCycles e from_date until_date s) = (bs', s')"
    for orc sched bs' s'
  proof -
    obtain bs s1 where p: "processCycles e from_date until_date s = (bs, s1)"
      by (cases "processCycles e from_date until_date s")
    from run_inv [OF processCycles_inv [OF p] r [unfolded p]]
    have inv: "\<forall>i<length bs'. batch_inv e (bs' ! i) s'"
      and cyc: "map bcycle bs' = map bcycle bs"
      by simp_all
    from p eq have bs: "map bcycle bs = map (\<lambda>k. (cycle_previous ^^ k) ?c0) [0..<n]"
      by (auto simp: comp_def)
    from cyc bs have l: "length bs' = n"
      using length_map [of bcycle bs'] by simp
    have "list_all2 dtask_for (processCycle_products e ((cycle_previous ^^ i) ?c0))
            (dtasks (bs' ! i))" if i: "i < n" for i
    proof -
      from inv i l have "batch_inv e (bs' ! i) s'" by simp
      moreover from cyc bs i l have "bcycle (bs' ! i) = (cycle_previous ^^ i) ?c0"
        using nth_map [of i bs' bcycle] by simp
      ultimately show ?thesis by (simp add: batch_inv_def)
    qed
    with cyc bs show ?thesis by simp
  qed
  note eq' = eq [unfolded processCycle_products_dtasks]
  note runs' = runs [unfolded processCycle_products_def]
  show ?thesis
    unfolding Let_def len
    using lo hi one eq' runs' by (intro conjI impI allI) simp_all
qed

text \<open>
  The window from 07:00 back to 00:00 gives the chains of the 06:00 and 00:00 cycles, each
  with the two products of the forecast offsets 0 and 3.
\<close>

lemma processCycles_example:
  "processCycles env0 25200000 0 state0 =
     ([\<lparr>bcycle = \<lparr>date = 21600000\<rparr>, phase = Downloading,
        dtasks = [DStart \<lparr>ptype = ''1.0'', cycle = \<lparr>date = 21600000\<rparr>, forecastHour = 0\<rparr>,
                  DStart \<lparr>ptype = ''1.0'', cycle = \<lparr>date = 21600000\<rparr>, forecastHour = 3\<rparr>],
        etasks = [], ptasks = [], failure = None\<rparr>,
       \<lparr>bcycle = \<lparr>date = 0\<rparr>, phase = Downloading,
        dtasks = [DStart \<lparr>ptype = ''1.0'', cycle = \<lparr>date = 0\<rparr>, forecastHour = 0\<rparr>,
                  DStart \<lparr>ptype = ''1.0'', cycle = \<lparr>date = 0\<rparr>, forecastHour = 3\<rparr>],
        etasks = [], ptasks = [], failure = None\<rparr>],
      state0\<lparr>logged := [CycleStart \<lparr>date = 21600000\<rparr>, CycleStart \<lparr>date = 0\<rparr>]\<rparr>)"
  by (simp add: processCycles_def gfs_cycle_def env0_def CYCLE_PERIOD_def
      processCycles_loop.simps [of _ "\<lparr>date = 21600000\<rparr>" "\<lparr>date = 0\<rparr>"]
      processCycles_loop.simps [of _ "\<lparr>date = 0\<rparr>" "\<lparr>date = 0\<rparr>"]
      processCycles_loop.simps [of _ "\<lparr>date = - 21600000\<rparr>" "\<lparr>date = 0\<rparr>"]
      processCycle_def processCycle_products_def PRODUCT_TYPES_def gfs_product_def
      cycle_previous_def log_info_def state0_def Let_def)

theorem scheduler_walks_back_witness:
  "processCycles env0 25200000 0 state0 =
     ([\<lparr>bcycle = \<lparr>date = 21600000\<rparr>, phase = Downloading,
        dtasks = [DStart \<lparr>ptype = ''1.0'', cycle = \<lparr>date = 21600000\<rparr>, forecastHour = 0\<rparr>,
                  DStart \<lparr>ptype = ''1.0'', cycle = \<lparr>date = 21600000\<rparr>, forecastHour = 3\<rparr>],
        etasks = [], ptasks = [], failure = None\<rparr>,
       \<lparr>bcycle = \<lparr>date = 0\<rparr>, phase = Downloading,
        dtasks = [DStart \<lparr>ptype = ''1.0'', cycle = \<lparr>date = 0\<rparr>, forecastHour = 0\<rparr>,
                  DStart \<lparr>ptype = ''1.0'', cycle = \<lparr>date = 0\<rparr>, forecastHour = 3\<rparr>],
        etasks = [], ptasks = [], failure = None\<rparr>],
      state0\<lparr>logged := [CycleStart \<lparr>date = 21600000\<rparr>, CycleStart \<lparr>date = 0\<rparr>]\<rparr>)
   \<and> date (gfs_cycle env0 0) \<le> date (gfs_cycle env0 25200000)
   \<and> date (gfs_cycle env0 0) \<le> date (cycle_previous (gfs_cycle env0 25200000))
   \<and> date (cycle_previous (cycle_previous (gfs_cycle env0 25200000))) < date (gfs_cycle env0 0)
   \<and> length (fst (processCycles env0 21600000 21600000 state0)) = 1
   \<and> map bcycle (fst (run_chains env0 orc0 [(0, 0), (1, 1), (0, 0), (0, 0), (5, 0)]
                        (processCycles env0 25200000 0 state0)))
       = [\<lparr>date = 21600000\<rparr>, \<lparr>date = 0\<rparr>]"
proof -
  note ex = processCycles_example
  note t = scheduler_walks_back [of env0 25200000 0 state0, unfolded Let_def ex fst_conv]
  have n: "length [\<lparr>bcycle = \<lparr>date = 21600000\<rparr>, phase = Downloading,
        dtasks = [DStart \<lparr>ptype = ''1.0'', cycle = \<lparr>date = 21600000\<rparr>, forecastHour = 0\<rparr>,
                  DStart \<lparr>ptype = ''1.0'', cycle = \<lparr>date = 21600000\<rparr>, forecastHour = 3\<rparr>],
        etasks = [], ptasks = [], failure = None\<rparr>,
       \<lparr>bcycle = \<lparr>date = 0\<rparr>, phase = Downloading,
        dtasks = [DStart \<lparr>ptype = ''1.0'', cycle = \<lparr>date = 0\<rparr>, forecastHour = 0\<rparr>,
                  DStart \<lparr>ptype = ''1.0'', cycle = \<lparr>date = 0\<rparr>, forecastHour = 3\<rparr>],
        etasks = [], ptasks = [], failure = None\<rparr>] = 2"
    by simp
  note t2 = t [unfolded n]
  from t2 have lo: "\<forall>k<2. date (gfs_cycle env0 0) \<le> date ((cycle_previous ^^ k) (gfs_cycle env0 25200000))"
    and hi: "date ((cycle_previous ^^ 2) (gfs_cycle env0 25200000)) < date (gfs_cycle env0 0)"
    and r: "\<forall>orc sched bs' s'.
            run_chains env0 orc sched (processCycles env0 25200000 0 state0) = (bs', s') \<longrightarrow>
            map bcycle bs' = map (\<lambda>k. (cycle_previous ^^ k) (gfs_cycle env0 25200000)) [0..<2]"
    unfolding ex by blast+
  from lo have lo0: "date (gfs_cycle env0 0) \<le> date (gfs_cycle env0 25200000)"
    and lo1: "date (gfs_cycle env0 0) \<le> date (cycle_previous (gfs_cycle env0 25200000))"
    by (auto dest: spec [of _ 0] spec [of _ 1])
  from hi have hi2: "date (cycle_previous (cycle_previous (gfs_cycle env0 25200000)))
      < date (gfs_cycle env0 0)"
    by (simp add: numeral_2_eq_2)
  from scheduler_walks_back [of env0 21600000 21600000 state0]
  have one: "length (fst (processCycles env0 21600000 21600000 state0)) = 1"
    by (simp add: Let_def)
  from r have "map bcycle (fst (run_chains env0 orc0 [(0, 0), (1, 1), (0, 0), (0, 0), (5, 0)]
                        (processCycles env0 25200000 0 state0)))
       = map (\<lambda>k. (cycle_previous ^^ k) (gfs_cycle env0 25200000)) [0..<2]"
    by (metis prod.collapse)
  also have "\<dots> = [\<lparr>date = 21600000\<rparr>, \<lparr>date = 0\<rparr>]"
    by (simp add: upt_rec gfs_cycle_def env0_def cycle_previous_def CYCLE_PERIOD_def)
  finally show ?thesis
    using ex lo0 lo1 hi2 one by simp
qed

end
